theory Spec2Isabelle
  imports Main "HOL-Library.Multiset"
begin

section \<open>Capsule: conversion of the Tenant between v1alpha1 and the v1beta1 hub\<close>

text \<open>
  A shallow embedding of \<^verbatim>\<open>api/v1alpha1/conversion_hub.go\<close>. The receiver package is
  v1alpha1, so its types keep their Go names; the types of the hub package
  (\<^verbatim>\<open>capsulev1beta1\<close>) carry the prefix \<open>b_\<close> on their fields.

  Go's typed string constants (\<^verbatim>\<open>OwnerKind\<close>, \<^verbatim>\<open>ProxyServiceKind\<close>, \<^verbatim>\<open>ProxyOperation\<close>,
  \<^verbatim>\<open>ResourceQuotaScope\<close>, \<^verbatim>\<open>Kind\<close>) are strings here as well: a \<^verbatim>\<open>switch\<close> without
  \<^verbatim>\<open>default\<close> falls through on any other value, and the conversions between them are
  the identity on the underlying string.
\<close>

subsection \<open>The Go standard library functions the conversion calls\<close>

text \<open>
  \<^verbatim>\<open>strings.Split(s, ",")\<close>: the pieces of \<open>s\<close> between commas. The result is never
  empty; on the empty string it is the one-element list holding the empty string.
\<close>

fun Split :: "string \<Rightarrow> string list" where
  "Split [] = [[]]"
| "Split (c # cs) =
     (if c = CHR '','' then [] # Split cs
      else (case Split cs of [] \<Rightarrow> [[c]] | x # xs \<Rightarrow> (c # x) # xs))"

text \<open>\<^verbatim>\<open>strings.Join(elems, sep)\<close>.\<close>

fun Join :: "string list \<Rightarrow> string \<Rightarrow> string" where
  "Join [] sep = []"
| "Join [x] sep = x"
| "Join (x # y # ys) sep = x @ sep @ Join (y # ys) sep"

text \<open>
  \<^verbatim>\<open>strconv.ParseBool\<close> accepts exactly twelve spellings; anything else is a
  \<^verbatim>\<open>*strconv.NumError\<close> with \<^verbatim>\<open>Func = "ParseBool"\<close>, \<^verbatim>\<open>Num\<close> the input and
  \<^verbatim>\<open>Err = ErrSyntax\<close>.
\<close>

datatype NumError = NumError (Func: string) (Num: string)

definition ParseBool :: "string \<Rightarrow> NumError + bool" where
  "ParseBool str =
     (if str \<in> set [''1'', ''t'', ''T'', ''TRUE'', ''true'', ''True''] then Inr True
      else if str \<in> set [''0'', ''f'', ''F'', ''FALSE'', ''false'', ''False''] then Inr False
      else Inl (NumError ''ParseBool'' str))"

definition FormatBool :: "bool \<Rightarrow> string" where
  "FormatBool b = (if b then ''true'' else ''false'')"

text \<open>
  \<^verbatim>\<open>errors.Wrap(err, message)\<close> of \<^verbatim>\<open>github.com/pkg/errors\<close>: the cause together with
  the message put in front of it. A nil-pointer dereference is a run-time panic; it is a
  value of the same type, so that a function that panics returns it.
\<close>

datatype error =
    Wrap (cause: NumError) (message: string)
  | NilPointerDereference

subsection \<open>Annotation keys\<close>

definition resourceQuotaScopeAnnotation :: string where
  "resourceQuotaScopeAnnotation = ''capsule.clastix.io/resource-quota-scope''"

definition podAllowedImagePullPolicyAnnotation :: string where
  "podAllowedImagePullPolicyAnnotation = ''capsule.clastix.io/allowed-image-pull-policy''"

definition podPriorityAllowedAnnotation :: string where
  "podPriorityAllowedAnnotation = ''priorityclass.capsule.clastix.io/allowed''"

definition podPriorityAllowedRegexAnnotation :: string where
  "podPriorityAllowedRegexAnnotation = ''priorityclass.capsule.clastix.io/allowed-regex''"

definition enableNodePortsAnnotation :: string where
  "enableNodePortsAnnotation = ''capsule.clastix.io/enable-node-ports''"

definition enableExternalNameAnnotation :: string where
  "enableExternalNameAnnotation = ''capsule.clastix.io/enable-external-name''"

definition ownerGroupsAnnotation :: string where
  "ownerGroupsAnnotation = ''owners.capsule.clastix.io/group''"

definition ownerUsersAnnotation :: string where
  "ownerUsersAnnotation = ''owners.capsule.clastix.io/user''"

definition ownerServiceAccountAnnotation :: string where
  "ownerServiceAccountAnnotation = ''owners.capsule.clastix.io/serviceaccount''"

definition enableNodeListingAnnotation :: string where
  "enableNodeListingAnnotation = ''capsule.clastix.io/enable-node-listing''"

definition enableNodeUpdateAnnotation :: string where
  "enableNodeUpdateAnnotation = ''capsule.clastix.io/enable-node-update''"

definition enableNodeDeletionAnnotation :: string where
  "enableNodeDeletionAnnotation = ''capsule.clastix.io/enable-node-deletion''"

definition enableStorageClassListingAnnotation :: string where
  "enableStorageClassListingAnnotation = ''capsule.clastix.io/enable-storageclass-listing''"

definition enableStorageClassUpdateAnnotation :: string where
  "enableStorageClassUpdateAnnotation = ''capsule.clastix.io/enable-storageclass-update''"

definition enableStorageClassDeletionAnnotation :: string where
  "enableStorageClassDeletionAnnotation = ''capsule.clastix.io/enable-storageclass-deletion''"

definition enableIngressClassListingAnnotation :: string where
  "enableIngressClassListingAnnotation = ''capsule.clastix.io/enable-ingressclass-listing''"

definition enableIngressClassUpdateAnnotation :: string where
  "enableIngressClassUpdateAnnotation = ''capsule.clastix.io/enable-ingressclass-update''"

definition enableIngressClassDeletionAnnotation :: string where
  "enableIngressClassDeletionAnnotation = ''capsule.clastix.io/enable-ingressclass-deletion''"

definition enablePriorityClassListingAnnotation :: string where
  "enablePriorityClassListingAnnotation = ''capsule.clastix.io/enable-priorityclass-listing''"

definition enablePriorityClassUpdateAnnotation :: string where
  "enablePriorityClassUpdateAnnotation = ''capsule.clastix.io/enable-priorityclass-update''"

definition enablePriorityClassDeletionAnnotation :: string where
  "enablePriorityClassDeletionAnnotation = ''capsule.clastix.io/enable-priorityclass-deletion''"

subsection \<open>The enumerations of the hub package\<close>

text \<open>
  Modelled from the spec: the typed string constants of the hub package (\<^verbatim>\<open>OwnerKind\<close>,
  \<^verbatim>\<open>ProxyServiceKind\<close>, \<^verbatim>\<open>ProxyOperation\<close>, \<^verbatim>\<open>ResourceQuotaScope\<close>), which are
  declared in \<^verbatim>\<open>api/v1beta1\<close>, outside the converted file. The spec names the three owner
  kinds (User, Group, ServiceAccount), the four service kinds, the three operations
  (List, Update, Delete) and the two scopes with their literals (Namespace, Tenant); the
  end-to-end test of the repository writes the owner kind as \<^verbatim>\<open>"User"\<close>. Only their being
  pairwise different matters to the properties below, and, for the scope, that the
  literal written to the annotation is the one read back.
\<close>

type_synonym OwnerKind = string
type_synonym ProxyServiceKind = string
type_synonym ProxyOperation = string
type_synonym ResourceQuotaScope = string

definition UserOwner :: OwnerKind where "UserOwner = ''User''"
definition GroupOwner :: OwnerKind where "GroupOwner = ''Group''"
definition ServiceAccountOwner :: OwnerKind where "ServiceAccountOwner = ''ServiceAccount''"

definition NodesProxy :: ProxyServiceKind where "NodesProxy = ''Nodes''"
definition StorageClassesProxy :: ProxyServiceKind where "StorageClassesProxy = ''StorageClasses''"
definition IngressClassesProxy :: ProxyServiceKind where "IngressClassesProxy = ''IngressClasses''"
definition PriorityClassesProxy :: ProxyServiceKind where "PriorityClassesProxy = ''PriorityClasses''"

definition ListOperation :: ProxyOperation where "ListOperation = ''List''"
definition UpdateOperation :: ProxyOperation where "UpdateOperation = ''Update''"
definition DeleteOperation :: ProxyOperation where "DeleteOperation = ''Delete''"

definition ResourceQuotaScopeTenant :: ResourceQuotaScope where
  "ResourceQuotaScopeTenant = ''Tenant''"
definition ResourceQuotaScopeNamespace :: ResourceQuotaScope where
  "ResourceQuotaScopeNamespace = ''Namespace''"

subsection \<open>The data model\<close>

text \<open>
  Modelled from the spec: the struct types of the two packages (\<^verbatim>\<open>Tenant\<close>,
  \<^verbatim>\<open>TenantSpec\<close>, \<^verbatim>\<open>OwnerSpec\<close>, \<^verbatim>\<open>ProxySettings\<close> and those of their fields), which
  are declared outside the converted file. The records have the fields that the
  converted file reads and writes, with the types its statements need (a pointer that is
  compared with nil is an \<open>option\<close>, a slice is a list, a map a partial function); the
  data model of the spec lists the same fields.

  Payloads that the conversion only copies (the Kubernetes policy items and the subjects of
  a role binding) are opaque types.
\<close>

typedecl NetworkPolicyItem
typedecl LimitRangeItem
typedecl ResourceQuotaItem
typedecl Subject

text \<open>
  The metadata: the name, the labels and the annotations. A Go map may be nil: \<open>None\<close>
  is the nil map, on which a lookup finds nothing and \<^verbatim>\<open>delete\<close> does nothing. The other
  fields of \<^verbatim>\<open>metav1.ObjectMeta\<close> are copied with the struct and never read.
\<close>

record ObjectMeta =
  metaName :: string
  Labels :: "string \<rightharpoonup> string"
  Annotations :: "(string \<rightharpoonup> string) option"

text \<open>
  Types that have the same fields in both packages are one record here:
  \<^verbatim>\<open>AdditionalMetadataSpec\<close>, \<^verbatim>\<open>AllowedListSpec\<close>, \<^verbatim>\<open>AdditionalRoleBindingsSpec\<close>,
  \<^verbatim>\<open>ExternalServiceIPsSpec\<close> (whose \<^verbatim>\<open>AllowedIP\<close> is a string type) and \<^verbatim>\<open>TenantStatus\<close>.
  A nil slice is the empty list.
\<close>

record AdditionalMetadataSpec =
  AdditionalLabels :: "string \<rightharpoonup> string"
  AdditionalAnnotations :: "string \<rightharpoonup> string"

record AllowedListSpec =
  Exact :: "string list"
  Regex :: string

record AdditionalRoleBindingsSpec =
  ClusterRoleName :: string
  Subjects :: "Subject list"

record ExternalServiceIPsSpec =
  Allowed :: "string list"

record TenantStatus =
  Size :: nat
  Namespaces :: "string list"

text \<open>v1alpha1, the package of the receiver.\<close>

record OwnerSpec =
  Name :: string
  Kind :: string

record TenantSpec =
  Owner :: OwnerSpec
  NamespaceQuota :: "int option"
  NodeSelector :: "string \<rightharpoonup> string"
  NamespacesMetadata :: "AdditionalMetadataSpec option"
  ServicesMetadata :: "AdditionalMetadataSpec option"
  StorageClasses :: "AllowedListSpec option"
  IngressClasses :: "AllowedListSpec option"
  IngressHostnames :: "AllowedListSpec option"
  ContainerRegistries :: "AllowedListSpec option"
  NetworkPolicies :: "NetworkPolicyItem list"
  LimitRanges :: "LimitRangeItem list"
  ResourceQuota :: "ResourceQuotaItem list"
  AdditionalRoleBindings :: "AdditionalRoleBindingsSpec list"
  ExternalServiceIPs :: "ExternalServiceIPsSpec option"

record Tenant =
  ObjectMeta :: ObjectMeta
  Spec :: TenantSpec
  Status :: TenantStatus

text \<open>v1beta1, the hub.\<close>

record ProxySettings =
  p_Kind :: ProxyServiceKind
  p_Operations :: "ProxyOperation list"

record b_OwnerSpec =
  b_Kind :: OwnerKind
  b_Name :: string
  b_ProxyOperations :: "ProxySettings list"

record AllowedServices =
  b_NodePort :: "bool option"
  b_ExternalName :: "bool option"

record ServiceOptions =
  b_AdditionalMetadata :: "AdditionalMetadataSpec option"
  b_AllowedServices :: "AllowedServices option"

record NetworkPolicySpec =
  np_Items :: "NetworkPolicyItem list"

record LimitRangesSpec =
  lr_Items :: "LimitRangeItem list"

record ResourceQuotaSpec =
  rq_Scope :: ResourceQuotaScope
  rq_Items :: "ResourceQuotaItem list"

record b_TenantSpec =
  b_Owners :: "b_OwnerSpec list"
  b_NamespaceQuota :: "int option"
  b_NodeSelector :: "string \<rightharpoonup> string"
  b_NamespacesMetadata :: "AdditionalMetadataSpec option"
  b_ServiceOptions :: "ServiceOptions option"
  b_StorageClasses :: "AllowedListSpec option"
  b_IngressClasses :: "AllowedListSpec option"
  b_IngressHostnames :: "AllowedListSpec option"
  b_ContainerRegistries :: "AllowedListSpec option"
  b_NetworkPolicies :: "NetworkPolicySpec option"
  b_LimitRanges :: "LimitRangesSpec option"
  b_ResourceQuota :: "ResourceQuotaSpec option"
  b_AdditionalRoleBindings :: "AdditionalRoleBindingsSpec list"
  b_ExternalServiceIPs :: "ExternalServiceIPsSpec option"
  b_ImagePullPolicies :: "string list"
  b_PriorityClasses :: "AllowedListSpec option"

record b_Tenant =
  b_ObjectMeta :: ObjectMeta
  b_Spec :: b_TenantSpec
  b_Status :: TenantStatus

text \<open>
  \<^verbatim>\<open>GetAnnotations\<close> returns the map of the metadata; reading a nil map finds no key, so
  the annotations are read through \<open>lookup\<close>.
\<close>

definition lookup :: "(string \<rightharpoonup> string) option \<Rightarrow> string \<rightharpoonup> string" where
  "lookup a k = (case a of None \<Rightarrow> None | Some m \<Rightarrow> m k)"

definition GetAnnotations :: "Tenant \<Rightarrow> string \<rightharpoonup> string" where
  "GetAnnotations t = lookup (Annotations (ObjectMeta t))"

definition GetName :: "Tenant \<Rightarrow> string" where
  "GetName t = metaName (ObjectMeta t)"

subsection \<open>Iteration over Go maps\<close>

text \<open>
  A \<^verbatim>\<open>range\<close> over a Go map visits every key once, in an order the language leaves
  open and that may differ from one loop to the next. The upgrade has three such loops
  whose order reaches the result; the order each of them takes is a parameter:
  \<^item> \<open>rangeServiceKinds\<close>: the keys of \<^verbatim>\<open>serviceKindToAnnotationMap\<close> (line 78);
  \<^item> \<open>rangeOwnerOperations n\<close>: the service kinds, for the loop over
    \<^verbatim>\<open>ownerOperations\<close> (line 97) in the call of \<^verbatim>\<open>getProxySettingsForOwner\<close> that builds
    the owner at index \<open>n\<close>: the loop visits the kinds of this list that are keys of
    \<^verbatim>\<open>ownerOperations\<close>;
  \<^item> \<open>rangeOwnerKinds\<close>: the keys of \<^verbatim>\<open>annotationToOwnerKindMap\<close> (line 113).
\<close>

record schedule =
  rangeServiceKinds :: "ProxyServiceKind list"
  rangeOwnerOperations :: "nat \<Rightarrow> ProxyServiceKind list"
  rangeOwnerKinds :: "string list"

definition proxyServiceKinds :: "ProxyServiceKind list" where
  "proxyServiceKinds = [NodesProxy, StorageClassesProxy, IngressClassesProxy, PriorityClassesProxy]"

definition ownerKindAnnotations :: "string list" where
  "ownerKindAnnotations = [ownerUsersAnnotation, ownerGroupsAnnotation, ownerServiceAccountAnnotation]"

text \<open>A schedule of orders that Go can take: each is a permutation of the keys.\<close>

definition valid_schedule :: "schedule \<Rightarrow> bool" where
  "valid_schedule sched =
     (distinct (rangeServiceKinds sched) \<and>
      set (rangeServiceKinds sched) = set proxyServiceKinds \<and>
      (\<forall>n. distinct (rangeOwnerOperations sched n) \<and>
           set (rangeOwnerOperations sched n) = set proxyServiceKinds) \<and>
      distinct (rangeOwnerKinds sched) \<and>
      set (rangeOwnerKinds sched) = set ownerKindAnnotations)"

subsection \<open>Upgrade of the owners: \<^verbatim>\<open>convertV1Alpha1OwnerToV1Beta1\<close>\<close>

text \<open>The three lookup tables. Reading a Go map at a key it does not hold gives the zero value.\<close>

definition serviceKindToAnnotationMap :: "ProxyServiceKind \<rightharpoonup> string list" where
  "serviceKindToAnnotationMap = map_of
     [(NodesProxy, [enableNodeListingAnnotation, enableNodeUpdateAnnotation, enableNodeDeletionAnnotation]),
      (StorageClassesProxy, [enableStorageClassListingAnnotation, enableStorageClassUpdateAnnotation, enableStorageClassDeletionAnnotation]),
      (IngressClassesProxy, [enableIngressClassListingAnnotation, enableIngressClassUpdateAnnotation, enableIngressClassDeletionAnnotation]),
      (PriorityClassesProxy, [enablePriorityClassListingAnnotation, enablePriorityClassUpdateAnnotation, enablePriorityClassDeletionAnnotation])]"

definition annotationToOperationMap :: "string \<rightharpoonup> ProxyOperation" where
  "annotationToOperationMap = map_of
     [(enableNodeListingAnnotation, ListOperation),
      (enableNodeUpdateAnnotation, UpdateOperation),
      (enableNodeDeletionAnnotation, DeleteOperation),
      (enableStorageClassListingAnnotation, ListOperation),
      (enableStorageClassUpdateAnnotation, UpdateOperation),
      (enableStorageClassDeletionAnnotation, DeleteOperation),
      (enableIngressClassListingAnnotation, ListOperation),
      (enableIngressClassUpdateAnnotation, UpdateOperation),
      (enableIngressClassDeletionAnnotation, DeleteOperation),
      (enablePriorityClassListingAnnotation, ListOperation),
      (enablePriorityClassUpdateAnnotation, UpdateOperation),
      (enablePriorityClassDeletionAnnotation, DeleteOperation)]"

definition annotationToOwnerKindMap :: "string \<rightharpoonup> OwnerKind" where
  "annotationToOwnerKindMap = map_of
     [(ownerUsersAnnotation, UserOwner),
      (ownerGroupsAnnotation, GroupOwner),
      (ownerServiceAccountAnnotation, ServiceAccountOwner)]"

definition zeroOr :: "'a list option \<Rightarrow> 'a list" where
  "zeroOr v = (case v of None \<Rightarrow> [] | Some x \<Rightarrow> x)"

text \<open>
  \<^verbatim>\<open>operations\<close>, of type \<^verbatim>\<open>map[string]map[ProxyServiceKind][]ProxyOperation\<close>, and the
  body of the innermost loop (lines 83 to 86): make the owner's map when it is missing,
  then append the operation to the slice of the service kind.
\<close>

type_synonym operations = "string \<rightharpoonup> (ProxyServiceKind \<rightharpoonup> ProxyOperation list)"

definition recordOperation ::
  "ProxyServiceKind \<Rightarrow> ProxyOperation \<Rightarrow> string \<Rightarrow> operations \<Rightarrow> operations" where
  "recordOperation serviceKind operation owner ops =
     (let ops1 = (if ops owner = None then ops(owner \<mapsto> Map.empty) else ops);
          inner = (case ops1 owner of None \<Rightarrow> Map.empty | Some m \<Rightarrow> m)
      in ops1(owner \<mapsto> inner(serviceKind \<mapsto> zeroOr (inner serviceKind) @ [operation])))"

text \<open>Lines 80 to 88: one operation annotation of a service kind.\<close>

definition decodeAnnotation ::
  "(string \<rightharpoonup> string) \<Rightarrow> ProxyServiceKind \<Rightarrow> string \<Rightarrow> operations \<Rightarrow> operations" where
  "decodeAnnotation annotations serviceKind operationAnnotation ops =
     (case annotations operationAnnotation of
        None \<Rightarrow> ops
      | Some val \<Rightarrow>
          fold (recordOperation serviceKind
                  (case annotationToOperationMap operationAnnotation of None \<Rightarrow> [] | Some op \<Rightarrow> op))
               (Split val) ops)"

text \<open>
  Lines 78 to 90: the service kinds in the order of the schedule, each with its
  annotations in the order of its slice.
\<close>

definition decodeServiceKind ::
  "(string \<rightharpoonup> string) \<Rightarrow> ProxyServiceKind \<Rightarrow> operations \<Rightarrow> operations" where
  "decodeServiceKind annotations serviceKind ops =
     fold (decodeAnnotation annotations serviceKind)
          (zeroOr (serviceKindToAnnotationMap serviceKind)) ops"

definition decodeOperations :: "ProxyServiceKind list \<Rightarrow> (string \<rightharpoonup> string) \<Rightarrow> operations" where
  "decodeOperations order annotations = fold (decodeServiceKind annotations) order Map.empty"

text \<open>
  Lines 94 to 105. The loop over \<^verbatim>\<open>ownerOperations\<close> visits its keys in the given order.
\<close>

definition getProxySettingsForOwner ::
  "ProxyServiceKind list \<Rightarrow> operations \<Rightarrow> string \<Rightarrow> ProxySettings list" where
  "getProxySettingsForOwner order ops ownerName =
     (case ops ownerName of
        None \<Rightarrow> []
      | Some ownerOperations \<Rightarrow>
          concat (map (\<lambda>k. case ownerOperations k of
                               None \<Rightarrow> []
                             | Some v \<Rightarrow> [\<lparr>p_Kind = k, p_Operations = v\<rparr>]) order))"

text \<open>
  One \<^verbatim>\<open>append\<close> to \<^verbatim>\<open>owners\<close> (lines 107 to 111 and 117 to 121). The call of
  \<^verbatim>\<open>getProxySettingsForOwner\<close> in it is the one for the index the new owner gets.
\<close>

definition appendOwner ::
  "schedule \<Rightarrow> operations \<Rightarrow> OwnerKind \<Rightarrow> string \<Rightarrow> b_OwnerSpec list \<Rightarrow> b_OwnerSpec list" where
  "appendOwner sched ops kind name owners =
     owners @ [\<lparr>b_Kind = kind, b_Name = name,
                b_ProxyOperations =
                  getProxySettingsForOwner (rangeOwnerOperations sched (length owners)) ops name\<rparr>]"

text \<open>Lines 114 to 123: one owner-kind annotation.\<close>

definition appendOwnersOfKind ::
  "schedule \<Rightarrow> operations \<Rightarrow> (string \<rightharpoonup> string) \<Rightarrow> string \<Rightarrow> b_OwnerSpec list \<Rightarrow> b_OwnerSpec list" where
  "appendOwnersOfKind sched ops annotations ownerAnnotation owners =
     (case annotations ownerAnnotation of
        None \<Rightarrow> owners
      | Some val \<Rightarrow>
          fold (appendOwner sched ops
                  (case annotationToOwnerKindMap ownerAnnotation of None \<Rightarrow> [] | Some k \<Rightarrow> k))
               (Split val) owners)"

text \<open>Lines 92 to 126: the owners, from the decoded \<^verbatim>\<open>operations\<close>.\<close>

definition ownersFrom ::
  "schedule \<Rightarrow> operations \<Rightarrow> (string \<rightharpoonup> string) \<Rightarrow> OwnerSpec \<Rightarrow> b_OwnerSpec list" where
  "ownersFrom sched ops annotations owner =
     fold (appendOwnersOfKind sched ops annotations) (rangeOwnerKinds sched)
       (appendOwner sched ops (Kind owner) (Name owner) [])"

definition convertV1Alpha1OwnerToV1Beta1 :: "schedule \<Rightarrow> Tenant \<Rightarrow> b_OwnerSpec list" where
  "convertV1Alpha1OwnerToV1Beta1 sched t =
     (let annotations = GetAnnotations t;
          ops = decodeOperations (rangeServiceKinds sched) annotations
      in ownersFrom sched ops annotations (Owner (Spec t)))"

subsection \<open>Upgrade: \<^verbatim>\<open>ConvertTo\<close>\<close>

text \<open>
  Lines 133 to 246, on the spec of the destination. Each block of the source writes one
  field; a block under a condition leaves the field as the destination had it when the
  condition fails. The copies of the allow lists, of the metadata and of the addresses
  are field-by-field copies, which are the same value.
\<close>

definition copyAllowedList :: "AllowedListSpec option \<Rightarrow> AllowedListSpec option \<Rightarrow> AllowedListSpec option" where
  "copyAllowedList from old =
     (case from of None \<Rightarrow> old | Some l \<Rightarrow> Some \<lparr>Exact = Exact l, Regex = Regex l\<rparr>)"

definition copyAdditionalMetadata :: "AdditionalMetadataSpec \<Rightarrow> AdditionalMetadataSpec" where
  "copyAdditionalMetadata m =
     \<lparr>AdditionalLabels = AdditionalLabels m, AdditionalAnnotations = AdditionalAnnotations m\<rparr>"

definition copyRoleBinding :: "AdditionalRoleBindingsSpec \<Rightarrow> AdditionalRoleBindingsSpec" where
  "copyRoleBinding rb = \<lparr>ClusterRoleName = ClusterRoleName rb, Subjects = Subjects rb\<rparr>"

definition copyExternalServiceIPs ::
  "ExternalServiceIPsSpec option \<Rightarrow> ExternalServiceIPsSpec option \<Rightarrow> ExternalServiceIPsSpec option" where
  "copyExternalServiceIPs from old =
     (case from of None \<Rightarrow> old | Some e \<Rightarrow> Some \<lparr>Allowed = map (\<lambda>IP. IP) (Allowed e)\<rparr>)"

text \<open>Lines 192 to 207: the scope read from the annotation, \<^verbatim>\<open>Tenant\<close> by default.\<close>

definition scopeOfAnnotation :: "(string \<rightharpoonup> string) \<Rightarrow> ResourceQuotaScope" where
  "scopeOfAnnotation annotations =
     (case annotations resourceQuotaScopeAnnotation of
        Some v \<Rightarrow>
          (if v = ResourceQuotaScopeNamespace then ResourceQuotaScopeNamespace
           else if v = ResourceQuotaScopeTenant then ResourceQuotaScopeTenant
           else ResourceQuotaScopeTenant)
      | None \<Rightarrow> ResourceQuotaScopeTenant)"

text \<open>
  Lines 233 to 246: \<^verbatim>\<open>reflect.ValueOf(priorityClasses).IsZero()\<close> holds when the slice is
  nil and the regular expression is the empty string.
\<close>

definition priorityClassesOfAnnotations :: "(string \<rightharpoonup> string) \<Rightarrow> AllowedListSpec" where
  "priorityClassesOfAnnotations annotations =
     \<lparr>Exact = (case annotations podPriorityAllowedAnnotation of None \<Rightarrow> [] | Some v \<Rightarrow> Split v),
      Regex = (case annotations podPriorityAllowedRegexAnnotation of None \<Rightarrow> [] | Some v \<Rightarrow> v)\<rparr>"

definition IsZero :: "AllowedListSpec \<Rightarrow> bool" where
  "IsZero l = (Exact l = [] \<and> Regex l = [])"

definition convertSpecTo :: "schedule \<Rightarrow> Tenant \<Rightarrow> b_TenantSpec \<Rightarrow> b_TenantSpec" where
  "convertSpecTo sched t dst =
     (let annotations = GetAnnotations t; spec = Spec t in
      dst\<lparr>b_NamespaceQuota := NamespaceQuota spec,
          b_NodeSelector := NodeSelector spec,
          b_Owners := convertV1Alpha1OwnerToV1Beta1 sched t,
          b_NamespacesMetadata :=
            (case NamespacesMetadata spec of
               None \<Rightarrow> b_NamespacesMetadata dst
             | Some m \<Rightarrow> Some (copyAdditionalMetadata m)),
          b_ServiceOptions :=
            (case ServicesMetadata spec of
               None \<Rightarrow> b_ServiceOptions dst
             | Some m \<Rightarrow>
                 (case b_ServiceOptions dst of
                    None \<Rightarrow> Some \<lparr>b_AdditionalMetadata = Some (copyAdditionalMetadata m),
                                   b_AllowedServices = None\<rparr>
                  | Some so \<Rightarrow> Some so)),
          b_StorageClasses := copyAllowedList (StorageClasses spec) (b_StorageClasses dst),
          b_IngressClasses := copyAllowedList (IngressClasses spec) (b_IngressClasses dst),
          b_IngressHostnames := copyAllowedList (IngressHostnames spec) (b_IngressHostnames dst),
          b_ContainerRegistries := copyAllowedList (ContainerRegistries spec) (b_ContainerRegistries dst),
          b_NetworkPolicies :=
            (if length (NetworkPolicies spec) > 0 then Some \<lparr>np_Items = NetworkPolicies spec\<rparr>
             else b_NetworkPolicies dst),
          b_LimitRanges :=
            (if length (LimitRanges spec) > 0 then Some \<lparr>lr_Items = LimitRanges spec\<rparr>
             else b_LimitRanges dst),
          b_ResourceQuota :=
            (if length (ResourceQuota spec) > 0
             then Some \<lparr>rq_Scope = scopeOfAnnotation annotations, rq_Items = ResourceQuota spec\<rparr>
             else b_ResourceQuota dst),
          b_AdditionalRoleBindings :=
            b_AdditionalRoleBindings dst @ map copyRoleBinding (AdditionalRoleBindings spec),
          b_ExternalServiceIPs := copyExternalServiceIPs (ExternalServiceIPs spec) (b_ExternalServiceIPs dst),
          b_ImagePullPolicies :=
            (case annotations podAllowedImagePullPolicyAnnotation of
               None \<Rightarrow> b_ImagePullPolicies dst
             | Some pullPolicies \<Rightarrow> b_ImagePullPolicies dst @ Split pullPolicies),
          b_PriorityClasses :=
            (if \<not> IsZero (priorityClassesOfAnnotations annotations)
             then Some (priorityClassesOfAnnotations annotations)
             else b_PriorityClasses dst)\<rparr>)"

text \<open>
  Lines 254 to 259 and 269 to 274: the allowed services of the destination, allocated
  when the service options or the allowed services are nil.
\<close>

definition allowedServicesOf :: "b_TenantSpec \<Rightarrow> AllowedServices" where
  "allowedServicesOf dst =
     (case b_ServiceOptions dst of
        None \<Rightarrow> \<lparr>b_NodePort = None, b_ExternalName = None\<rparr>
      | Some so \<Rightarrow>
          (case b_AllowedServices so of
             None \<Rightarrow> \<lparr>b_NodePort = None, b_ExternalName = None\<rparr>
           | Some as \<Rightarrow> as))"

definition withAllowedServices :: "AllowedServices \<Rightarrow> b_TenantSpec \<Rightarrow> b_TenantSpec" where
  "withAllowedServices as dst =
     dst\<lparr>b_ServiceOptions :=
           Some (case b_ServiceOptions dst of
                   None \<Rightarrow> \<lparr>b_AdditionalMetadata = None, b_AllowedServices = Some as\<rparr>
                 | Some so \<Rightarrow> so\<lparr>b_AllowedServices := Some as\<rparr>)\<rparr>"

definition parseErrorMessage :: "string \<Rightarrow> string \<Rightarrow> string" where
  "parseErrorMessage annotation name =
     ''unable to parse '' @ annotation @ '' annotation on tenant '' @ name"

text \<open>Lines 248 to 261.\<close>

definition convertNodePorts :: "Tenant \<Rightarrow> b_TenantSpec \<Rightarrow> error + b_TenantSpec" where
  "convertNodePorts t dst =
     (case GetAnnotations t enableNodePortsAnnotation of
        None \<Rightarrow> Inr dst
      | Some enableNodePorts \<Rightarrow>
          (case ParseBool enableNodePorts of
             Inl err \<Rightarrow> Inl (Wrap err (parseErrorMessage enableNodePortsAnnotation (GetName t)))
           | Inr val \<Rightarrow>
               Inr (withAllowedServices ((allowedServicesOf dst)\<lparr>b_NodePort := Some val\<rparr>) dst)))"

text \<open>Lines 263 to 276.\<close>

definition convertExternalName :: "Tenant \<Rightarrow> b_TenantSpec \<Rightarrow> error + b_TenantSpec" where
  "convertExternalName t dst =
     (case GetAnnotations t enableExternalNameAnnotation of
        None \<Rightarrow> Inr dst
      | Some enableExternalName \<Rightarrow>
          (case ParseBool enableExternalName of
             Inl err \<Rightarrow> Inl (Wrap err (parseErrorMessage enableExternalNameAnnotation (GetName t)))
           | Inr val \<Rightarrow>
               Inr (withAllowedServices ((allowedServicesOf dst)\<lparr>b_ExternalName := Some val\<rparr>) dst)))"

text \<open>Lines 284 to 305: the deletions, in the order of the source.\<close>

definition delete :: "string \<Rightarrow> (string \<rightharpoonup> string) option \<Rightarrow> (string \<rightharpoonup> string) option" where
  "delete k a = (case a of None \<Rightarrow> None | Some m \<Rightarrow> Some (m(k := None)))"

definition unneededAnnotations :: "string list" where
  "unneededAnnotations =
     [podAllowedImagePullPolicyAnnotation,
      podPriorityAllowedAnnotation,
      podPriorityAllowedRegexAnnotation,
      enableNodePortsAnnotation,
      enableExternalNameAnnotation,
      ownerGroupsAnnotation,
      ownerUsersAnnotation,
      ownerServiceAccountAnnotation,
      enableNodeListingAnnotation,
      enableNodeUpdateAnnotation,
      enableNodeDeletionAnnotation,
      enableStorageClassListingAnnotation,
      enableStorageClassUpdateAnnotation,
      enableStorageClassDeletionAnnotation,
      enableIngressClassListingAnnotation,
      enableIngressClassUpdateAnnotation,
      enableIngressClassDeletionAnnotation,
      enablePriorityClassListingAnnotation,
      enablePriorityClassUpdateAnnotation,
      enablePriorityClassDeletionAnnotation,
      resourceQuotaScopeAnnotation]"

definition removeUnneededAnnotations :: "ObjectMeta \<Rightarrow> ObjectMeta" where
  "removeUnneededAnnotations meta = meta\<lparr>Annotations := fold delete unneededAnnotations (Annotations meta)\<rparr>"

text \<open>
  \<^verbatim>\<open>ConvertTo\<close> writes into the destination it is given and returns an error or nil: the
  result is the destination as the call leaves it, together with the error. A return at
  a parse error leaves the destination as the statements before it made it. (The
  destination's metadata shares the annotations map with the receiver, so the deletions
  reach the receiver's map too; the receiver is not part of the result.)
\<close>

definition ConvertTo :: "schedule \<Rightarrow> Tenant \<Rightarrow> b_Tenant \<Rightarrow> b_Tenant \<times> error option" where
  "ConvertTo sched t dstRaw =
     (let dst = dstRaw\<lparr>b_ObjectMeta := ObjectMeta t,
                       b_Spec := convertSpecTo sched t (b_Spec dstRaw)\<rparr> in
      case convertNodePorts t (b_Spec dst) of
        Inl err \<Rightarrow> (dst, Some err)
      | Inr spec1 \<Rightarrow>
          (case convertExternalName t spec1 of
             Inl err \<Rightarrow> (dst\<lparr>b_Spec := spec1\<rparr>, Some err)
           | Inr spec2 \<Rightarrow>
               (dst\<lparr>b_Spec := spec2,
                    b_Status := \<lparr>Size = Size (Status t), Namespaces = Namespaces (Status t)\<rparr>,
                    b_ObjectMeta := removeUnneededAnnotations (b_ObjectMeta dst)\<rparr>,
                None)))"

subsection \<open>Downgrade of the owners: \<^verbatim>\<open>convertV1Beta1OwnerToV1Alpha1\<close>\<close>

text \<open>
  The two local maps from an annotation key to the names collected for it. Appending to
  the slice of a key the map does not hold appends to nil and stores the key.
\<close>

type_synonym collected = "string \<rightharpoonup> string list"

definition appendName :: "string \<Rightarrow> string \<Rightarrow> collected \<Rightarrow> collected" where
  "appendName k name m = m(k \<mapsto> zeroOr (m k) @ [name])"

definition ownersAnnotationsInit :: collected where
  "ownersAnnotationsInit = map_of
     [(ownerGroupsAnnotation, []), (ownerUsersAnnotation, []), (ownerServiceAccountAnnotation, [])]"

definition proxyAnnotationsInit :: collected where
  "proxyAnnotationsInit = map_of
     [(enableNodeListingAnnotation, []),
      (enableNodeUpdateAnnotation, []),
      (enableNodeDeletionAnnotation, []),
      (enableStorageClassListingAnnotation, []),
      (enableStorageClassUpdateAnnotation, []),
      (enableStorageClassDeletionAnnotation, []),
      (enableIngressClassListingAnnotation, []),
      (enableIngressClassUpdateAnnotation, []),
      (enableIngressClassDeletionAnnotation, [])]"

text \<open>Lines 336 to 343: the switch on the kind of an owner after the first.\<close>

definition collectOwnerKind :: "b_OwnerSpec \<Rightarrow> collected \<Rightarrow> collected" where
  "collectOwnerKind owner oa =
     (if b_Kind owner = UserOwner then appendName ownerUsersAnnotation (b_Name owner) oa
      else if b_Kind owner = GroupOwner then appendName ownerGroupsAnnotation (b_Name owner) oa
      else if b_Kind owner = ServiceAccountOwner then appendName ownerServiceAccountAnnotation (b_Name owner) oa
      else oa)"

text \<open>
  Lines 346 to 391: the key that the two nested switches select for a service kind and
  an operation, in the order of their cases; none when a switch has no case for the value.
\<close>

definition proxyAnnotationOf :: "ProxyServiceKind \<Rightarrow> ProxyOperation \<Rightarrow> string option" where
  "proxyAnnotationOf kind operation =
     (if kind = NodesProxy then
        (if operation = ListOperation then Some enableNodeListingAnnotation
         else if operation = UpdateOperation then Some enableNodeUpdateAnnotation
         else if operation = DeleteOperation then Some enableNodeDeletionAnnotation
         else None)
      else if kind = PriorityClassesProxy then
        (if operation = ListOperation then Some enablePriorityClassListingAnnotation
         else if operation = UpdateOperation then Some enablePriorityClassUpdateAnnotation
         else if operation = DeleteOperation then Some enablePriorityClassDeletionAnnotation
         else None)
      else if kind = StorageClassesProxy then
        (if operation = ListOperation then Some enableStorageClassListingAnnotation
         else if operation = UpdateOperation then Some enableStorageClassUpdateAnnotation
         else if operation = DeleteOperation then Some enableStorageClassDeletionAnnotation
         else None)
      else if kind = IngressClassesProxy then
        (if operation = ListOperation then Some enableIngressClassListingAnnotation
         else if operation = UpdateOperation then Some enableIngressClassUpdateAnnotation
         else if operation = DeleteOperation then Some enableIngressClassDeletionAnnotation
         else None)
      else None)"

definition collectOperation :: "string \<Rightarrow> ProxyServiceKind \<Rightarrow> ProxyOperation \<Rightarrow> collected \<Rightarrow> collected" where
  "collectOperation name kind operation pa =
     (case proxyAnnotationOf kind operation of None \<Rightarrow> pa | Some k \<Rightarrow> appendName k name pa)"

definition collectSetting :: "string \<Rightarrow> ProxySettings \<Rightarrow> collected \<Rightarrow> collected" where
  "collectSetting name setting pa =
     fold (collectOperation name (p_Kind setting)) (p_Operations setting) pa"

text \<open>
  Lines 329 to 393: the body of the loop over the owners, on the primary owner of the
  receiver and the two local maps. The loop over the proxy settings (line 345) stands
  after the \<^verbatim>\<open>if\<close> on the index, so it runs for the first owner too.
\<close>

record ownersState =
  primary :: OwnerSpec
  ownersAnnotations :: collected
  proxyAnnotations :: collected

definition ownerStep :: "nat \<times> b_OwnerSpec \<Rightarrow> ownersState \<Rightarrow> ownersState" where
  "ownerStep io st =
     (let i = fst io; owner = snd io;
          st1 = (if i = 0 then st\<lparr>primary := \<lparr>Name = b_Name owner, Kind = b_Kind owner\<rparr>\<rparr>
                 else st\<lparr>ownersAnnotations := collectOwnerKind owner (ownersAnnotations st)\<rparr>)
      in st1\<lparr>proxyAnnotations :=
               fold (collectSetting (b_Name owner)) (b_ProxyOperations owner) (proxyAnnotations st1)\<rparr>)"

definition collectOwners :: "b_OwnerSpec list \<Rightarrow> OwnerSpec \<Rightarrow> ownersState" where
  "collectOwners owners owner0 =
     fold ownerStep (enumerate 0 owners)
       \<lparr>primary = owner0, ownersAnnotations = ownersAnnotationsInit,
        proxyAnnotations = proxyAnnotationsInit\<rparr>"

text \<open>
  Lines 395 to 404: every key of a local map whose slice is not empty is written to the
  annotations, joined by commas. The loops range over Go maps; each key is written at
  most once and no two writes touch the same key, so the order does not reach the
  result. The keys are visited here in the order of the lists \<open>ownerKeys\<close> and
  \<open>proxyKeys\<close>, which hold every key the local maps can have; the lemma
  \<open>convertV1Beta1OwnerToV1Alpha1_any_order\<close> shows that any other order, over any keys
  that include those with a name, writes the same annotations.
\<close>

definition emitAnnotation :: "collected \<Rightarrow> string \<Rightarrow> (string \<rightharpoonup> string) \<Rightarrow> (string \<rightharpoonup> string)" where
  "emitAnnotation m k annotations =
     (case m k of
        None \<Rightarrow> annotations
      | Some v \<Rightarrow> if length v > 0 then annotations(k \<mapsto> Join v '','') else annotations)"

definition emitAnnotations :: "collected \<Rightarrow> string list \<Rightarrow> (string \<rightharpoonup> string) \<Rightarrow> (string \<rightharpoonup> string)" where
  "emitAnnotations m keys annotations = fold (emitAnnotation m) keys annotations"

definition ownerKeys :: "string list" where
  "ownerKeys = [ownerGroupsAnnotation, ownerUsersAnnotation, ownerServiceAccountAnnotation]"

definition proxyKeys :: "string list" where
  "proxyKeys =
     [enableNodeListingAnnotation, enableNodeUpdateAnnotation, enableNodeDeletionAnnotation,
      enableStorageClassListingAnnotation, enableStorageClassUpdateAnnotation, enableStorageClassDeletionAnnotation,
      enableIngressClassListingAnnotation, enableIngressClassUpdateAnnotation, enableIngressClassDeletionAnnotation,
      enablePriorityClassListingAnnotation, enablePriorityClassUpdateAnnotation, enablePriorityClassDeletionAnnotation]"

text \<open>
  The function changes the primary owner and the annotations of the receiver; it is
  called when the annotations map is not nil (line 417).
\<close>

definition convertV1Beta1OwnerToV1Alpha1 ::
  "b_Tenant \<Rightarrow> OwnerSpec \<times> (string \<rightharpoonup> string) \<Rightarrow> OwnerSpec \<times> (string \<rightharpoonup> string)" where
  "convertV1Beta1OwnerToV1Alpha1 src t =
     (let st = collectOwners (b_Owners (b_Spec src)) (fst t) in
      (primary st,
       emitAnnotations (proxyAnnotations st) proxyKeys
         (emitAnnotations (ownersAnnotations st) ownerKeys (snd t))))"

subsection \<open>Downgrade: \<^verbatim>\<open>ConvertFrom\<close>\<close>

text \<open>
  The annotations that lines 465 to 501 write, in the order of the source: the scope of
  the resource quota, the image pull policies, the priority classes.
\<close>

definition emitResourceQuotaScope :: "b_TenantSpec \<Rightarrow> (string \<rightharpoonup> string) \<Rightarrow> (string \<rightharpoonup> string)" where
  "emitResourceQuotaScope src annotations =
     (case b_ResourceQuota src of
        None \<Rightarrow> annotations
      | Some rq \<Rightarrow> annotations(resourceQuotaScopeAnnotation \<mapsto> rq_Scope rq))"

definition emitImagePullPolicies :: "b_TenantSpec \<Rightarrow> (string \<rightharpoonup> string) \<Rightarrow> (string \<rightharpoonup> string)" where
  "emitImagePullPolicies src annotations =
     (if length (b_ImagePullPolicies src) \<noteq> 0
      then annotations(podAllowedImagePullPolicyAnnotation \<mapsto>
             Join (fold (\<lambda>policy pullPolicies. pullPolicies @ [policy]) (b_ImagePullPolicies src) []) '','')
      else annotations)"

definition emitPriorityClasses :: "b_TenantSpec \<Rightarrow> (string \<rightharpoonup> string) \<Rightarrow> (string \<rightharpoonup> string)" where
  "emitPriorityClasses src annotations =
     (case b_PriorityClasses src of
        None \<Rightarrow> annotations
      | Some pc \<Rightarrow>
          (let a1 = (if length (Exact pc) \<noteq> 0
                     then annotations(podPriorityAllowedAnnotation \<mapsto> Join (Exact pc) '','')
                     else annotations)
           in if Regex pc \<noteq> [] then a1(podPriorityAllowedRegexAnnotation \<mapsto> Regex pc) else a1))"

text \<open>
  Lines 503 to 506: the two booleans are read through their pointers without a check;
  a nil pointer panics. The node port is read first.
\<close>

definition emitAllowedServices :: "b_TenantSpec \<Rightarrow> (string \<rightharpoonup> string) \<Rightarrow> error + (string \<rightharpoonup> string)" where
  "emitAllowedServices src annotations =
     (case b_ServiceOptions src of
        None \<Rightarrow> Inr annotations
      | Some so \<Rightarrow>
          (case b_AllowedServices so of
             None \<Rightarrow> Inr annotations
           | Some as \<Rightarrow>
               (case b_NodePort as of
                  None \<Rightarrow> Inl NilPointerDereference
                | Some nodePort \<Rightarrow>
                    (case b_ExternalName as of
                       None \<Rightarrow> Inl NilPointerDereference
                     | Some externalName \<Rightarrow>
                         Inr (annotations(enableNodePortsAnnotation \<mapsto> FormatBool nodePort,
                                          enableExternalNameAnnotation \<mapsto> FormatBool externalName))))))"

text \<open>Lines 414 to 485, on the spec of the receiver; the primary owner is set with the annotations.\<close>

definition convertSpecFrom :: "b_TenantSpec \<Rightarrow> OwnerSpec \<Rightarrow> TenantSpec \<Rightarrow> TenantSpec" where
  "convertSpecFrom src owner t =
     t\<lparr>NamespaceQuota := b_NamespaceQuota src,
       NodeSelector := b_NodeSelector src,
       Owner := owner,
       NamespacesMetadata :=
         (case b_NamespacesMetadata src of
            None \<Rightarrow> NamespacesMetadata t
          | Some m \<Rightarrow> Some (copyAdditionalMetadata m)),
       ServicesMetadata :=
         (case b_ServiceOptions src of
            None \<Rightarrow> ServicesMetadata t
          | Some so \<Rightarrow>
              (case b_AdditionalMetadata so of
                 None \<Rightarrow> ServicesMetadata t
               | Some m \<Rightarrow> Some (copyAdditionalMetadata m))),
       StorageClasses := copyAllowedList (b_StorageClasses src) (StorageClasses t),
       IngressClasses := copyAllowedList (b_IngressClasses src) (IngressClasses t),
       IngressHostnames := copyAllowedList (b_IngressHostnames src) (IngressHostnames t),
       ContainerRegistries := copyAllowedList (b_ContainerRegistries src) (ContainerRegistries t),
       NetworkPolicies :=
         (case b_NetworkPolicies src of None \<Rightarrow> NetworkPolicies t | Some np \<Rightarrow> np_Items np),
       LimitRanges :=
         (case b_LimitRanges src of None \<Rightarrow> LimitRanges t | Some lr \<Rightarrow> lr_Items lr),
       ResourceQuota :=
         (case b_ResourceQuota src of None \<Rightarrow> ResourceQuota t | Some rq \<Rightarrow> rq_Items rq),
       AdditionalRoleBindings :=
         AdditionalRoleBindings t @ map copyRoleBinding (b_AdditionalRoleBindings src),
       ExternalServiceIPs := copyExternalServiceIPs (b_ExternalServiceIPs src) (ExternalServiceIPs t)\<rparr>"

text \<open>
  \<^verbatim>\<open>ConvertFrom\<close> writes into its receiver and returns nil, or panics. The result is the
  receiver as the call leaves it; a call that panics returns nothing but the panic.
  Line 417 makes the annotations map when the metadata copied from the source has none.
\<close>

definition ConvertFrom :: "b_Tenant \<Rightarrow> Tenant \<Rightarrow> error + Tenant" where
  "ConvertFrom src t =
     (let annotations0 = (case Annotations (b_ObjectMeta src) of None \<Rightarrow> Map.empty | Some m \<Rightarrow> m);
          converted = convertV1Beta1OwnerToV1Alpha1 src (Owner (Spec t), annotations0);
          annotations1 =
            emitPriorityClasses (b_Spec src)
              (emitImagePullPolicies (b_Spec src)
                 (emitResourceQuotaScope (b_Spec src) (snd converted)))
      in case emitAllowedServices (b_Spec src) annotations1 of
           Inl panic \<Rightarrow> Inl panic
         | Inr annotations2 \<Rightarrow>
             Inr \<lparr>ObjectMeta = (b_ObjectMeta src)\<lparr>Annotations := Some annotations2\<rparr>,
                  Spec = convertSpecFrom (b_Spec src) (fst converted) (Spec t),
                  Status = \<lparr>Size = Size (b_Status src), Namespaces = Namespaces (b_Status src)\<rparr>\<rparr>)"

subsection \<open>Concrete instances\<close>

text \<open>
  The zero values of the two Tenant types, a legacy tenant with given annotations and
  primary owner, a hub tenant with given owners, and two schedules: the order in which
  the source writes its tables, and another one that changes from call to call.
\<close>

definition zeroTenant :: Tenant where
  "zeroTenant =
     \<lparr>ObjectMeta = \<lparr>metaName = [], Labels = Map.empty, Annotations = None\<rparr>,
      Spec = \<lparr>Owner = \<lparr>Name = [], Kind = []\<rparr>, NamespaceQuota = None, NodeSelector = Map.empty,
              NamespacesMetadata = None, ServicesMetadata = None, StorageClasses = None,
              IngressClasses = None, IngressHostnames = None, ContainerRegistries = None,
              NetworkPolicies = [], LimitRanges = [], ResourceQuota = [],
              AdditionalRoleBindings = [], ExternalServiceIPs = None\<rparr>,
      Status = \<lparr>Size = 0, Namespaces = []\<rparr>\<rparr>"

definition zeroHub :: b_Tenant where
  "zeroHub =
     \<lparr>b_ObjectMeta = \<lparr>metaName = [], Labels = Map.empty, Annotations = None\<rparr>,
      b_Spec = \<lparr>b_Owners = [], b_NamespaceQuota = None, b_NodeSelector = Map.empty,
                b_NamespacesMetadata = None, b_ServiceOptions = None, b_StorageClasses = None,
                b_IngressClasses = None, b_IngressHostnames = None, b_ContainerRegistries = None,
                b_NetworkPolicies = None, b_LimitRanges = None, b_ResourceQuota = None,
                b_AdditionalRoleBindings = [], b_ExternalServiceIPs = None,
                b_ImagePullPolicies = [], b_PriorityClasses = None\<rparr>,
      b_Status = \<lparr>Size = 0, Namespaces = []\<rparr>\<rparr>"

definition legacyTenant :: "string \<Rightarrow> OwnerSpec \<Rightarrow> (string \<times> string) list \<Rightarrow> Tenant" where
  "legacyTenant name owner annotations =
     zeroTenant\<lparr>ObjectMeta := \<lparr>metaName = name, Labels = Map.empty, Annotations = Some (map_of annotations)\<rparr>,
                Spec := (Spec zeroTenant)\<lparr>Owner := owner\<rparr>\<rparr>"

definition hubTenant :: "b_OwnerSpec list \<Rightarrow> b_Tenant" where
  "hubTenant owners = zeroHub\<lparr>b_Spec := (b_Spec zeroHub)\<lparr>b_Owners := owners\<rparr>\<rparr>"

definition sourceOrder :: schedule where
  "sourceOrder =
     \<lparr>rangeServiceKinds = [NodesProxy, StorageClassesProxy, IngressClassesProxy, PriorityClassesProxy],
      rangeOwnerOperations = (\<lambda>n. [NodesProxy, StorageClassesProxy, IngressClassesProxy, PriorityClassesProxy]),
      rangeOwnerKinds = [ownerUsersAnnotation, ownerGroupsAnnotation, ownerServiceAccountAnnotation]\<rparr>"

definition otherOrder :: schedule where
  "otherOrder =
     \<lparr>rangeServiceKinds = [PriorityClassesProxy, NodesProxy, IngressClassesProxy, StorageClassesProxy],
      rangeOwnerOperations =
        (\<lambda>n. if even n then [StorageClassesProxy, NodesProxy, PriorityClassesProxy, IngressClassesProxy]
             else [NodesProxy, StorageClassesProxy, IngressClassesProxy, PriorityClassesProxy]),
      rangeOwnerKinds = [ownerServiceAccountAnnotation, ownerUsersAnnotation, ownerGroupsAnnotation]\<rparr>"

text \<open>
  A hub tenant whose allowed services are present while both of their booleans are unset,
  and one with a resource quota of scope \<open>Namespace\<close> and no items.
\<close>

definition unsetAllowedServices :: b_Tenant where
  "unsetAllowedServices =
     zeroHub\<lparr>b_Spec := (b_Spec zeroHub)\<lparr>b_ServiceOptions :=
        Some \<lparr>b_AdditionalMetadata = None,
              b_AllowedServices = Some \<lparr>b_NodePort = None, b_ExternalName = None\<rparr>\<rparr>\<rparr>\<rparr>"

definition namespaceScoped :: b_Tenant where
  "namespaceScoped =
     zeroHub\<lparr>b_Spec := (b_Spec zeroHub)\<lparr>b_ResourceQuota :=
        Some \<lparr>rq_Scope = ResourceQuotaScopeNamespace, rq_Items = []\<rparr>\<rparr>\<rparr>"

text \<open>Legacy tenants named \<open>oil\<close> with the primary owner \<open>alice\<close>, a user.\<close>

definition twoAlices :: Tenant where
  "twoAlices = legacyTenant ''oil'' \<lparr>Name = ''alice'', Kind = ''User''\<rparr>
     [(ownerGroupsAnnotation, ''alice''), (enableNodeListingAnnotation, ''alice''),
      (enableStorageClassUpdateAnnotation, ''alice,bob'')]"

definition bobTwice :: Tenant where
  "bobTwice = legacyTenant ''oil'' \<lparr>Name = ''alice'', Kind = ''User''\<rparr>
     [(ownerUsersAnnotation, ''bob''), (enableNodeListingAnnotation, ''bob,bob'')]"

definition emptyGroups :: Tenant where
  "emptyGroups = legacyTenant ''oil'' \<lparr>Name = ''alice'', Kind = ''User''\<rparr>
     [(ownerGroupsAnnotation, '''')]"



text \<open>Hub tenants with the given owners.\<close>

definition threeListers :: b_Tenant where
  "threeListers = hubTenant
     [\<lparr>b_Kind = ''User'', b_Name = ''alice'',
       b_ProxyOperations = [\<lparr>p_Kind = ''Nodes'', p_Operations = [''List'']\<rparr>]\<rparr>,
      \<lparr>b_Kind = ''User'', b_Name = ''zed'',
       b_ProxyOperations = [\<lparr>p_Kind = ''Nodes'', p_Operations = [''List'']\<rparr>]\<rparr>,
      \<lparr>b_Kind = ''User'', b_Name = ''bob'',
       b_ProxyOperations = [\<lparr>p_Kind = ''Nodes'', p_Operations = [''List'']\<rparr>]\<rparr>]"

definition sharedName :: b_Tenant where
  "sharedName = hubTenant
     [\<lparr>b_Kind = ''User'', b_Name = ''a'',
       b_ProxyOperations = [\<lparr>p_Kind = ''Nodes'', p_Operations = [''List'']\<rparr>]\<rparr>,
      \<lparr>b_Kind = ''Group'', b_Name = ''a'', b_ProxyOperations = []\<rparr>]"

definition aliceAndTeam :: b_Tenant where
  "aliceAndTeam = hubTenant
     [\<lparr>b_Kind = ''User'', b_Name = ''alice'',
       b_ProxyOperations = [\<lparr>p_Kind = ''Nodes'', p_Operations = [''List'', ''Update'']\<rparr>]\<rparr>,
      \<lparr>b_Kind = ''Group'', b_Name = ''teamA'',
       b_ProxyOperations = [\<lparr>p_Kind = ''Nodes'', p_Operations = [''List'']\<rparr>]\<rparr>]"

subsection \<open>What the loops of the upgrade compute\<close>

text \<open>
  Closed forms for the proofs; the lemmas of the section on the decoded operations and
  on the owners relate each of them to the function of the source it describes.

  \<open>readOperations\<close> is the read \<^verbatim>\<open>operations[owner][serviceKind]\<close>, nil when a key is
  missing. \<open>decodedBy\<close> is what one annotation adds to the slice of an owner: its
  operation, once for every occurrence of the owner's name in the value.
  \<open>decodedOperations\<close> is the slice for a service kind, \<open>settingsOf\<close> the settings of a
  name when the kinds are visited in a given order. \<open>ownerEntries\<close> lists kind and name
  of the owners: the primary owner, then the names of each owner-kind annotation.
\<close>

definition readOperations :: "operations \<Rightarrow> string \<Rightarrow> ProxyServiceKind \<Rightarrow> ProxyOperation list" where
  "readOperations ops owner serviceKind =
     zeroOr (case ops owner of None \<Rightarrow> None | Some m \<Rightarrow> m serviceKind)"

definition noEmptySlice :: "operations \<Rightarrow> bool" where
  "noEmptySlice ops = (\<forall>owner m k l. ops owner = Some m \<longrightarrow> m k = Some l \<longrightarrow> l \<noteq> [])"

definition operationOf :: "string \<Rightarrow> ProxyOperation" where
  "operationOf a = (case annotationToOperationMap a of None \<Rightarrow> [] | Some op \<Rightarrow> op)"

definition decodedBy :: "(string \<rightharpoonup> string) \<Rightarrow> string \<Rightarrow> string \<Rightarrow> ProxyOperation list" where
  "decodedBy annotations owner a =
     (case annotations a of
        None \<Rightarrow> []
      | Some val \<Rightarrow> replicate (count_list (Split val) owner) (operationOf a))"

definition decodedOperations ::
  "(string \<rightharpoonup> string) \<Rightarrow> string \<Rightarrow> ProxyServiceKind \<Rightarrow> ProxyOperation list" where
  "decodedOperations annotations owner serviceKind =
     concat (map (decodedBy annotations owner) (zeroOr (serviceKindToAnnotationMap serviceKind)))"

definition settingsOf :: "ProxyServiceKind list \<Rightarrow> (string \<rightharpoonup> string) \<Rightarrow> string \<Rightarrow> ProxySettings list" where
  "settingsOf order annotations name =
     concat (map (\<lambda>k. if decodedOperations annotations name k = [] then []
                      else [\<lparr>p_Kind = k, p_Operations = decodedOperations annotations name k\<rparr>]) order)"

definition operationsFor :: "ProxyServiceKind \<Rightarrow> ProxySettings list \<Rightarrow> ProxyOperation list" where
  "operationsFor k settings = concat (map p_Operations (filter (\<lambda>s. p_Kind s = k) settings))"

definition ownerKindOf :: "string \<Rightarrow> OwnerKind" where
  "ownerKindOf a = (case annotationToOwnerKindMap a of None \<Rightarrow> [] | Some k \<Rightarrow> k)"

definition namedBy :: "(string \<rightharpoonup> string) \<Rightarrow> string \<Rightarrow> (OwnerKind \<times> string) list" where
  "namedBy annotations a =
     (case annotations a of None \<Rightarrow> [] | Some val \<Rightarrow> map (\<lambda>n. (ownerKindOf a, n)) (Split val))"

definition ownerEntries :: "string list \<Rightarrow> (string \<rightharpoonup> string) \<Rightarrow> OwnerSpec \<Rightarrow> (OwnerKind \<times> string) list" where
  "ownerEntries order annotations owner =
     (Kind owner, Name owner) # concat (map (namedBy annotations) order)"

definition ownerAt :: "schedule \<Rightarrow> operations \<Rightarrow> nat \<times> OwnerKind \<times> string \<Rightarrow> b_OwnerSpec" where
  "ownerAt sched ops e =
     \<lparr>b_Kind = fst (snd e), b_Name = snd (snd e),
      b_ProxyOperations = getProxySettingsForOwner (rangeOwnerOperations sched (fst e)) ops (snd (snd e))\<rparr>"

subsection \<open>What the loop of the downgrade collects\<close>

text \<open>
  Closed forms for the proofs and the statements. \<open>permissions\<close> is the set of pairs of
  a service kind and an operation in the proxy settings of an owner. \<open>holders\<close> lists,
  in the order of the owners, the name of every owner that has an operation under a
  service kind, once for every occurrence of the operation in the owner's settings of
  that kind. \<open>contribution\<close> is what one owner appends to the slice of a key.
\<close>

definition permissions :: "ProxySettings list \<Rightarrow> (ProxyServiceKind \<times> ProxyOperation) set" where
  "permissions settings = (\<Union>s \<in> set settings. Pair (p_Kind s) ` set (p_Operations s))"

definition holders :: "ProxyServiceKind \<Rightarrow> ProxyOperation \<Rightarrow> b_OwnerSpec list \<Rightarrow> string list" where
  "holders kind operation owners =
     concat (map (\<lambda>ow. replicate (count_list (operationsFor kind (b_ProxyOperations ow)) operation)
                          (b_Name ow)) owners)"

definition contribution :: "string \<Rightarrow> b_OwnerSpec \<Rightarrow> string list" where
  "contribution k' ow =
     concat (map (\<lambda>s. concat (map (\<lambda>op. if proxyAnnotationOf (p_Kind s) op = Some k'
                                         then [b_Name ow] else []) (p_Operations s)))
               (b_ProxyOperations ow))"

section \<open>Properties\<close>

subsection \<open>Keys and enumerations are pairwise different\<close>

lemmas key_defs =
  resourceQuotaScopeAnnotation_def podAllowedImagePullPolicyAnnotation_def
  podPriorityAllowedAnnotation_def podPriorityAllowedRegexAnnotation_def
  enableNodePortsAnnotation_def enableExternalNameAnnotation_def
  ownerGroupsAnnotation_def ownerUsersAnnotation_def ownerServiceAccountAnnotation_def
  enableNodeListingAnnotation_def enableNodeUpdateAnnotation_def enableNodeDeletionAnnotation_def
  enableStorageClassListingAnnotation_def enableStorageClassUpdateAnnotation_def
  enableStorageClassDeletionAnnotation_def
  enableIngressClassListingAnnotation_def enableIngressClassUpdateAnnotation_def
  enableIngressClassDeletionAnnotation_def
  enablePriorityClassListingAnnotation_def enablePriorityClassUpdateAnnotation_def
  enablePriorityClassDeletionAnnotation_def

lemmas enum_defs =
  UserOwner_def GroupOwner_def ServiceAccountOwner_def
  NodesProxy_def StorageClassesProxy_def IngressClassesProxy_def PriorityClassesProxy_def
  ListOperation_def UpdateOperation_def DeleteOperation_def
  ResourceQuotaScopeTenant_def ResourceQuotaScopeNamespace_def

lemma distinct_unneededAnnotations: "distinct unneededAnnotations"
  unfolding unneededAnnotations_def key_defs by simp

lemma length_unneededAnnotations: "length unneededAnnotations = 21"
  unfolding unneededAnnotations_def by simp

lemma distinct_proxyServiceKinds: "distinct proxyServiceKinds"
  unfolding proxyServiceKinds_def enum_defs by simp

lemma distinct_operations: "distinct [ListOperation, UpdateOperation, DeleteOperation]"
  unfolding enum_defs by simp

lemma distinct_ownerKinds: "distinct [UserOwner, GroupOwner, ServiceAccountOwner]"
  unfolding enum_defs by simp

text \<open>The keys are pairwise different, in both orientations, as rewrite rules.\<close>

lemma distinct_rev_unneededAnnotations: "distinct (rev unneededAnnotations)"
  using distinct_unneededAnnotations by simp

lemmas key_neq =
  distinct_unneededAnnotations [unfolded unneededAnnotations_def, simplified]
  distinct_rev_unneededAnnotations [unfolded unneededAnnotations_def, simplified]

text \<open>The tables of the upgrade, entry by entry.\<close>

lemma key_facts:
  "serviceKindToAnnotationMap NodesProxy =
     Some [enableNodeListingAnnotation, enableNodeUpdateAnnotation, enableNodeDeletionAnnotation]"
  "serviceKindToAnnotationMap StorageClassesProxy =
     Some [enableStorageClassListingAnnotation, enableStorageClassUpdateAnnotation, enableStorageClassDeletionAnnotation]"
  "serviceKindToAnnotationMap IngressClassesProxy =
     Some [enableIngressClassListingAnnotation, enableIngressClassUpdateAnnotation, enableIngressClassDeletionAnnotation]"
  "serviceKindToAnnotationMap PriorityClassesProxy =
     Some [enablePriorityClassListingAnnotation, enablePriorityClassUpdateAnnotation, enablePriorityClassDeletionAnnotation]"
  by (simp_all add: serviceKindToAnnotationMap_def enum_defs)

lemma operation_facts:
  "annotationToOperationMap enableNodeListingAnnotation = Some ListOperation"
  "annotationToOperationMap enableNodeUpdateAnnotation = Some UpdateOperation"
  "annotationToOperationMap enableNodeDeletionAnnotation = Some DeleteOperation"
  "annotationToOperationMap enableStorageClassListingAnnotation = Some ListOperation"
  "annotationToOperationMap enableStorageClassUpdateAnnotation = Some UpdateOperation"
  "annotationToOperationMap enableStorageClassDeletionAnnotation = Some DeleteOperation"
  "annotationToOperationMap enableIngressClassListingAnnotation = Some ListOperation"
  "annotationToOperationMap enableIngressClassUpdateAnnotation = Some UpdateOperation"
  "annotationToOperationMap enableIngressClassDeletionAnnotation = Some DeleteOperation"
  "annotationToOperationMap enablePriorityClassListingAnnotation = Some ListOperation"
  "annotationToOperationMap enablePriorityClassUpdateAnnotation = Some UpdateOperation"
  "annotationToOperationMap enablePriorityClassDeletionAnnotation = Some DeleteOperation"
  by (simp_all add: annotationToOperationMap_def key_defs)

lemma serviceKindToAnnotationMap_cases:
  assumes "serviceKindToAnnotationMap kind = Some as"
  shows "(kind = NodesProxy \<and> as = [enableNodeListingAnnotation, enableNodeUpdateAnnotation, enableNodeDeletionAnnotation]) \<or>
      (kind = StorageClassesProxy \<and> as = [enableStorageClassListingAnnotation, enableStorageClassUpdateAnnotation, enableStorageClassDeletionAnnotation]) \<or>
      (kind = IngressClassesProxy \<and> as = [enableIngressClassListingAnnotation, enableIngressClassUpdateAnnotation, enableIngressClassDeletionAnnotation]) \<or>
      (kind = PriorityClassesProxy \<and> as = [enablePriorityClassListingAnnotation, enablePriorityClassUpdateAnnotation, enablePriorityClassDeletionAnnotation])"
  using assms unfolding serviceKindToAnnotationMap_def by (simp split: if_splits)

subsection \<open>Reading the concrete instances\<close>

lemma GetAnnotations_legacyTenant [simp]: "GetAnnotations (legacyTenant n ow l) = map_of l"
  by (auto simp: GetAnnotations_def legacyTenant_def lookup_def)

lemma GetName_legacyTenant [simp]: "GetName (legacyTenant n ow l) = n"
  by (simp add: GetName_def legacyTenant_def)

lemma ObjectMeta_legacyTenant [simp]:
  "ObjectMeta (legacyTenant n ow l) =
     \<lparr>metaName = n, Labels = Map.empty, Annotations = Some (map_of l)\<rparr>"
  by (simp add: legacyTenant_def)

lemma Owner_legacyTenant [simp]: "Owner (Spec (legacyTenant n ow l)) = ow"
  by (simp add: legacyTenant_def)

subsection \<open>The outcome of the upgrade\<close>

text \<open>
  The upgrade fails exactly when one of the two boolean annotations is present and is
  not a boolean literal; the node ports are parsed first.
\<close>

lemma ConvertTo_error_cases:
  "snd (ConvertTo sched t dst) =
     (case GetAnnotations t enableNodePortsAnnotation of
        Some v \<Rightarrow> (case ParseBool v of
             Inl err \<Rightarrow> Some (Wrap err (parseErrorMessage enableNodePortsAnnotation (GetName t)))
           | Inr b \<Rightarrow> (case GetAnnotations t enableExternalNameAnnotation of
                 Some w \<Rightarrow> (case ParseBool w of
                     Inl err \<Rightarrow> Some (Wrap err (parseErrorMessage enableExternalNameAnnotation (GetName t)))
                   | Inr c \<Rightarrow> None)
               | None \<Rightarrow> None))
      | None \<Rightarrow> (case GetAnnotations t enableExternalNameAnnotation of
                 Some w \<Rightarrow> (case ParseBool w of
                     Inl err \<Rightarrow> Some (Wrap err (parseErrorMessage enableExternalNameAnnotation (GetName t)))
                   | Inr c \<Rightarrow> None)
               | None \<Rightarrow> None))"
  by (auto simp add: ConvertTo_def convertNodePorts_def convertExternalName_def Let_def
      split: option.splits sum.splits)

lemma ConvertTo_meta:
  "b_ObjectMeta (fst (ConvertTo sched t dst)) =
     (if snd (ConvertTo sched t dst) = None then removeUnneededAnnotations (ObjectMeta t)
      else ObjectMeta t)"
  by (simp add: ConvertTo_def convertNodePorts_def convertExternalName_def Let_def
      split: option.splits sum.splits)

subsection \<open>The annotations after an upgrade\<close>

lemma lookup_fold_delete:
  "lookup (fold delete ks a) k = (if k \<in> set ks then None else lookup a k)"
  by (induction ks arbitrary: a) (auto simp: delete_def lookup_def split: option.splits)

lemma set_unneededAnnotations:
  "set unneededAnnotations =
     set proxyKeys \<union> set ownerKeys \<union>
     {podAllowedImagePullPolicyAnnotation, podPriorityAllowedAnnotation,
      podPriorityAllowedRegexAnnotation, enableNodePortsAnnotation,
      enableExternalNameAnnotation, resourceQuotaScopeAnnotation}"
  unfolding unneededAnnotations_def proxyKeys_def ownerKeys_def by auto

text \<open>
  Claim C2. When the upgrade succeeds, none of the consumed keys is left in the
  annotations of the destination's metadata: the twelve permission keys, the three
  owner-kind keys, the pull-policy key, the two priority-class keys, the two boolean
  keys and the scope key (21 keys, \<open>length_unneededAnnotations\<close>); every other key is
  as in the source. When the upgrade fails, the annotations of the destination's
  metadata are those of the source, with no key removed.
\<close>

theorem upgrade_cleanup:
  "(snd (ConvertTo sched t dst) = None \<longrightarrow>
      (\<forall>k. lookup (Annotations (b_ObjectMeta (fst (ConvertTo sched t dst)))) k =
           (if k \<in> set proxyKeys \<union> set ownerKeys \<union>
                  {podAllowedImagePullPolicyAnnotation, podPriorityAllowedAnnotation,
                   podPriorityAllowedRegexAnnotation, enableNodePortsAnnotation,
                   enableExternalNameAnnotation, resourceQuotaScopeAnnotation}
            then None else lookup (Annotations (ObjectMeta t)) k))) \<and>
   (snd (ConvertTo sched t dst) \<noteq> None \<longrightarrow>
      Annotations (b_ObjectMeta (fst (ConvertTo sched t dst))) = Annotations (ObjectMeta t))"
  by (simp add: ConvertTo_meta removeUnneededAnnotations_def lookup_fold_delete
      set_unneededAnnotations del: Un_insert_right)

text \<open>
  C2 at two tenants named \<open>oil\<close>: with \<open>enable-node-ports = true\<close> the upgrade succeeds,
  the group key is gone and the foreign key \<open>team\<close> stays; with \<open>enable-node-ports =
  maybe\<close> it fails and the annotations are the two of the source.
\<close>

theorem upgrade_cleanup_witness:
  "snd (ConvertTo sourceOrder
          (legacyTenant ''oil'' \<lparr>Name = ''alice'', Kind = ''User''\<rparr>
             [(ownerGroupsAnnotation, ''teamA,teamB''), (enableNodePortsAnnotation, ''true''),
              (''team'', ''blue'')]) zeroHub) = None \<and>
   lookup (Annotations (b_ObjectMeta (fst (ConvertTo sourceOrder
          (legacyTenant ''oil'' \<lparr>Name = ''alice'', Kind = ''User''\<rparr>
             [(ownerGroupsAnnotation, ''teamA,teamB''), (enableNodePortsAnnotation, ''true''),
              (''team'', ''blue'')]) zeroHub)))) ownerGroupsAnnotation = None \<and>
   lookup (Annotations (b_ObjectMeta (fst (ConvertTo sourceOrder
          (legacyTenant ''oil'' \<lparr>Name = ''alice'', Kind = ''User''\<rparr>
             [(ownerGroupsAnnotation, ''teamA,teamB''), (enableNodePortsAnnotation, ''true''),
              (''team'', ''blue'')]) zeroHub)))) ''team'' = Some ''blue'' \<and>
   snd (ConvertTo sourceOrder
          (legacyTenant ''oil'' \<lparr>Name = ''alice'', Kind = ''User''\<rparr>
             [(ownerGroupsAnnotation, ''teamA,teamB''), (enableNodePortsAnnotation, ''maybe'')])
          zeroHub) \<noteq> None \<and>
   Annotations (b_ObjectMeta (fst (ConvertTo sourceOrder
          (legacyTenant ''oil'' \<lparr>Name = ''alice'', Kind = ''User''\<rparr>
             [(ownerGroupsAnnotation, ''teamA,teamB''), (enableNodePortsAnnotation, ''maybe'')])
          zeroHub))) =
     Some (map_of [(ownerGroupsAnnotation, ''teamA,teamB''), (enableNodePortsAnnotation, ''maybe'')])"
proof -
  let ?a = "legacyTenant ''oil'' \<lparr>Name = ''alice'', Kind = ''User''\<rparr>
             [(ownerGroupsAnnotation, ''teamA,teamB''), (enableNodePortsAnnotation, ''true''),
              (''team'', ''blue'')]"
  let ?b = "legacyTenant ''oil'' \<lparr>Name = ''alice'', Kind = ''User''\<rparr>
             [(ownerGroupsAnnotation, ''teamA,teamB''), (enableNodePortsAnnotation, ''maybe'')]"
  have a: "snd (ConvertTo sourceOrder ?a zeroHub) = None"
    by (simp add: ConvertTo_error_cases ParseBool_def key_defs)
  have b: "snd (ConvertTo sourceOrder ?b zeroHub) \<noteq> None"
    by (simp add: ConvertTo_error_cases ParseBool_def key_defs)
  have k: "ownerGroupsAnnotation \<in> set ownerKeys" by (simp add: ownerKeys_def)
  have k': "''team'' \<notin> set proxyKeys \<union> set ownerKeys \<union>
                  {podAllowedImagePullPolicyAnnotation, podPriorityAllowedAnnotation,
                   podPriorityAllowedRegexAnnotation, enableNodePortsAnnotation,
                   enableExternalNameAnnotation, resourceQuotaScopeAnnotation}"
    by (simp add: proxyKeys_def ownerKeys_def key_defs)
  have l: "lookup (Annotations (ObjectMeta ?a)) ''team'' = Some ''blue''"
    by (simp add: lookup_def key_defs)
  from upgrade_cleanup [of sourceOrder ?a zeroHub] upgrade_cleanup [of sourceOrder ?b zeroHub]
    a b k k' l
  show ?thesis by (simp del: Un_insert_right)
qed

subsection \<open>Boolean annotations on upgrade\<close>

lemma ParseBool_true: "v \<in> {''true'', ''1''} \<Longrightarrow> ParseBool v = Inr True"
  by (auto simp: ParseBool_def)

lemma ParseBool_maybe: "ParseBool ''maybe'' = Inl (NumError ''ParseBool'' ''maybe'')"
  by (simp add: ParseBool_def)

lemma convertExternalName_NodePort:
  "convertExternalName t s = Inr s' \<Longrightarrow>
     b_NodePort (allowedServicesOf s') = b_NodePort (allowedServicesOf s) \<and>
     (b_ServiceOptions s \<noteq> None \<and> b_AllowedServices (the (b_ServiceOptions s)) \<noteq> None \<longrightarrow>
      b_ServiceOptions s' \<noteq> None \<and> b_AllowedServices (the (b_ServiceOptions s')) \<noteq> None)"
  by (auto simp: convertExternalName_def allowedServicesOf_def withAllowedServices_def
      split: option.splits sum.splits)

lemma convertNodePorts_parsed:
  "GetAnnotations t enableNodePortsAnnotation = Some v \<Longrightarrow> ParseBool v = Inr b \<Longrightarrow>
   \<exists>s'. convertNodePorts t s = Inr s' \<and> b_NodePort (allowedServicesOf s') = Some b \<and>
        b_ServiceOptions s' \<noteq> None \<and> b_AllowedServices (the (b_ServiceOptions s')) \<noteq> None"
  by (auto simp: convertNodePorts_def allowedServicesOf_def withAllowedServices_def
      split: option.splits sum.splits)

text \<open>
  A node-port annotation that parses is in the destination whatever happens afterwards:
  a failure on the external-name annotation returns with the node port already set.
\<close>

lemma ConvertTo_NodePort:
  assumes "GetAnnotations t enableNodePortsAnnotation = Some v" "ParseBool v = Inr b"
  shows "\<exists>so as. b_ServiceOptions (b_Spec (fst (ConvertTo sched t dst))) = Some so \<and>
            b_AllowedServices so = Some as \<and> b_NodePort as = Some b"
proof -
  let ?d = "convertSpecTo sched t (b_Spec dst)"
  obtain s1 where s1: "convertNodePorts t ?d = Inr s1"
    "b_NodePort (allowedServicesOf s1) = Some b"
    "b_ServiceOptions s1 \<noteq> None" "b_AllowedServices (the (b_ServiceOptions s1)) \<noteq> None"
    using convertNodePorts_parsed [OF assms] by blast
  have sp: "b_Spec (fst (ConvertTo sched t dst)) =
      (case convertExternalName t s1 of Inl e \<Rightarrow> s1 | Inr s2 \<Rightarrow> s2)"
    using s1(1) by (simp add: ConvertTo_def Let_def split: sum.splits)
  show ?thesis
  proof (cases "convertExternalName t s1")
    case (Inl e)
    with sp s1 show ?thesis by (auto simp: allowedServicesOf_def split: option.splits)
  next
    case (Inr s2)
    from convertExternalName_NodePort [OF Inr] s1 sp Inr
    show ?thesis by (auto simp: allowedServicesOf_def split: option.splits)
  qed
qed

text \<open>
  With \<open>enable-node-ports\<close> equal to \<open>true\<close> or \<open>1\<close> the node port is set in the
  destination, and the upgrade succeeds exactly when the other boolean annotation,
  \<open>enable-external-name\<close>, is absent or a boolean literal: its parse error propagates
  in the same way (lines 263 to 268).
\<close>

lemma ConvertTo_node_ports_true:
  "(GetAnnotations t enableNodePortsAnnotation = Some ''maybe'' \<longrightarrow>
      snd (ConvertTo sched t dst) =
        Some (Wrap (NumError ''ParseBool'' ''maybe'')
               (''unable to parse '' @ enableNodePortsAnnotation @
                '' annotation on tenant '' @ GetName t))) \<and>
   (GetAnnotations t enableNodePortsAnnotation = Some v \<and> v \<in> {''true'', ''1''} \<longrightarrow>
      (\<exists>so as. b_ServiceOptions (b_Spec (fst (ConvertTo sched t dst))) = Some so \<and>
            b_AllowedServices so = Some as \<and> b_NodePort as = Some True) \<and>
      (snd (ConvertTo sched t dst) = None) =
        (case GetAnnotations t enableExternalNameAnnotation of
           None \<Rightarrow> True
         | Some w \<Rightarrow> \<exists>b. ParseBool w = Inr b))"
proof (intro conjI impI)
  assume "GetAnnotations t enableNodePortsAnnotation = Some ''maybe''"
  then show "snd (ConvertTo sched t dst) =
        Some (Wrap (NumError ''ParseBool'' ''maybe'')
               (''unable to parse '' @ enableNodePortsAnnotation @
                '' annotation on tenant '' @ GetName t))"
    by (simp add: ConvertTo_error_cases ParseBool_maybe parseErrorMessage_def)
next
  assume a: "GetAnnotations t enableNodePortsAnnotation = Some v \<and> v \<in> {''true'', ''1''}"
  then have p: "ParseBool v = Inr True" by (simp add: ParseBool_true)
  from a p show "\<exists>so as. b_ServiceOptions (b_Spec (fst (ConvertTo sched t dst))) = Some so \<and>
            b_AllowedServices so = Some as \<and> b_NodePort as = Some True"
    by (intro ConvertTo_NodePort) auto
  from a p show "(snd (ConvertTo sched t dst) = None) =
        (case GetAnnotations t enableExternalNameAnnotation of
           None \<Rightarrow> True
         | Some w \<Rightarrow> \<exists>b. ParseBool w = Inr b)"
    by (auto simp add: ConvertTo_error_cases split: option.splits sum.splits)
qed

text \<open>
  The parse error of the other boolean annotation, at a tenant named \<open>oil\<close> with
  \<open>enable-node-ports = true\<close> and \<open>enable-external-name = maybe\<close>.
\<close>

lemma external_name_error_propagates:
  "GetAnnotations (legacyTenant ''oil'' \<lparr>Name = ''alice'', Kind = ''User''\<rparr>
       [(enableNodePortsAnnotation, ''true''), (enableExternalNameAnnotation, ''maybe'')])
     enableNodePortsAnnotation = Some ''true'' \<and>
   snd (ConvertTo sourceOrder
      (legacyTenant ''oil'' \<lparr>Name = ''alice'', Kind = ''User''\<rparr>
         [(enableNodePortsAnnotation, ''true''), (enableExternalNameAnnotation, ''maybe'')])
      zeroHub) =
     Some (Wrap (NumError ''ParseBool'' ''maybe'')
            ''unable to parse capsule.clastix.io/enable-external-name annotation on tenant oil'')"
  by (simp add: ConvertTo_error_cases ParseBool_def parseErrorMessage_def key_defs)

text \<open>
  Claim C4. An upgrade with \<open>enable-node-ports = maybe\<close> fails with the parse error of
  \<open>maybe\<close>, wrapped in a message that holds the annotation key and the name of the
  tenant. An upgrade with \<open>enable-node-ports\<close> equal to \<open>true\<close> or \<open>1\<close> succeeds and
  sets the node port of the allowed services to true; the other boolean annotation,
  which the same rule makes fail the upgrade when it does not parse, is absent or a
  boolean literal here.
\<close>

theorem upgrade_node_ports:
  "(GetAnnotations t enableNodePortsAnnotation = Some ''maybe'' \<longrightarrow>
      snd (ConvertTo sched t dst) =
        Some (Wrap (NumError ''ParseBool'' ''maybe'')
               (''unable to parse '' @ enableNodePortsAnnotation @
                '' annotation on tenant '' @ GetName t))) \<and>
   (GetAnnotations t enableNodePortsAnnotation = Some v \<and> v \<in> {''true'', ''1''} \<and>
    (case GetAnnotations t enableExternalNameAnnotation of
       None \<Rightarrow> True
     | Some w \<Rightarrow> \<exists>b. ParseBool w = Inr b) \<longrightarrow>
      snd (ConvertTo sched t dst) = None \<and>
      (\<exists>so as. b_ServiceOptions (b_Spec (fst (ConvertTo sched t dst))) = Some so \<and>
            b_AllowedServices so = Some as \<and> b_NodePort as = Some True))"
proof (intro conjI impI)
  assume "GetAnnotations t enableNodePortsAnnotation = Some ''maybe''"
  then show "snd (ConvertTo sched t dst) =
        Some (Wrap (NumError ''ParseBool'' ''maybe'')
               (''unable to parse '' @ enableNodePortsAnnotation @
                '' annotation on tenant '' @ GetName t))"
    by (simp add: ConvertTo_error_cases ParseBool_maybe parseErrorMessage_def)
next
  assume a: "GetAnnotations t enableNodePortsAnnotation = Some v \<and> v \<in> {''true'', ''1''} \<and>
    (case GetAnnotations t enableExternalNameAnnotation of
       None \<Rightarrow> True
     | Some w \<Rightarrow> \<exists>b. ParseBool w = Inr b)"
  then have p: "ParseBool v = Inr True" by (simp add: ParseBool_true)
  from a p show "snd (ConvertTo sched t dst) = None"
    by (auto simp add: ConvertTo_error_cases split: option.splits sum.splits)
  from a p show "\<exists>so as. b_ServiceOptions (b_Spec (fst (ConvertTo sched t dst))) = Some so \<and>
            b_AllowedServices so = Some as \<and> b_NodePort as = Some True"
    by (intro ConvertTo_NodePort) auto
qed

text \<open>
  C4 at the tenant \<open>oil\<close>: \<open>maybe\<close> gives the error with the key and \<open>oil\<close> in its
  message; \<open>1\<close> with no external-name annotation, and \<open>true\<close> with
  \<open>enable-external-name = false\<close>, succeed and set the node port.
\<close>

theorem upgrade_node_ports_witness:
  "snd (ConvertTo sourceOrder
      (legacyTenant ''oil'' \<lparr>Name = ''alice'', Kind = ''User''\<rparr>
         [(enableNodePortsAnnotation, ''maybe'')]) zeroHub) =
     Some (Wrap (NumError ''ParseBool'' ''maybe'')
            ''unable to parse capsule.clastix.io/enable-node-ports annotation on tenant oil'') \<and>
   snd (ConvertTo sourceOrder
      (legacyTenant ''oil'' \<lparr>Name = ''alice'', Kind = ''User''\<rparr>
         [(enableNodePortsAnnotation, ''1'')]) zeroHub) = None \<and>
   (\<exists>so as. b_ServiceOptions (b_Spec (fst (ConvertTo sourceOrder
      (legacyTenant ''oil'' \<lparr>Name = ''alice'', Kind = ''User''\<rparr>
         [(enableNodePortsAnnotation, ''1'')]) zeroHub))) = Some so \<and>
            b_AllowedServices so = Some as \<and> b_NodePort as = Some True) \<and>
   snd (ConvertTo sourceOrder
      (legacyTenant ''oil'' \<lparr>Name = ''alice'', Kind = ''User''\<rparr>
         [(enableNodePortsAnnotation, ''true''), (enableExternalNameAnnotation, ''false'')])
      zeroHub) = None \<and>
   (\<exists>so as. b_ServiceOptions (b_Spec (fst (ConvertTo sourceOrder
      (legacyTenant ''oil'' \<lparr>Name = ''alice'', Kind = ''User''\<rparr>
         [(enableNodePortsAnnotation, ''true''), (enableExternalNameAnnotation, ''false'')])
      zeroHub))) = Some so \<and>
            b_AllowedServices so = Some as \<and> b_NodePort as = Some True)"
proof -
  let ?a = "legacyTenant ''oil'' \<lparr>Name = ''alice'', Kind = ''User''\<rparr>
         [(enableNodePortsAnnotation, ''maybe'')]"
  let ?b = "legacyTenant ''oil'' \<lparr>Name = ''alice'', Kind = ''User''\<rparr>
         [(enableNodePortsAnnotation, ''1'')]"
  let ?c = "legacyTenant ''oil'' \<lparr>Name = ''alice'', Kind = ''User''\<rparr>
         [(enableNodePortsAnnotation, ''true''), (enableExternalNameAnnotation, ''false'')]"
  have a: "GetAnnotations ?a enableNodePortsAnnotation = Some ''maybe''" by simp
  have b: "GetAnnotations ?b enableNodePortsAnnotation = Some ''1'' \<and> ''1'' \<in> {''true'', ''1''} \<and>
      (case GetAnnotations ?b enableExternalNameAnnotation of
         None \<Rightarrow> True | Some w \<Rightarrow> \<exists>b. ParseBool w = Inr b)"
    by (simp add: key_neq)
  have c: "GetAnnotations ?c enableNodePortsAnnotation = Some ''true'' \<and>
      ''true'' \<in> {''true'', ''1''} \<and>
      (case GetAnnotations ?c enableExternalNameAnnotation of
         None \<Rightarrow> True | Some w \<Rightarrow> \<exists>b. ParseBool w = Inr b)"
    by (auto simp: key_neq ParseBool_def)
  note A = upgrade_node_ports [where t = ?a and v = "''1''" and sched = sourceOrder and dst = zeroHub,
      THEN conjunct1, rule_format, OF a]
  note B = upgrade_node_ports [where t = ?b and v = "''1''" and sched = sourceOrder and dst = zeroHub,
      THEN conjunct2, rule_format, OF b]
  note C = upgrade_node_ports [where t = ?c and v = "''true''" and sched = sourceOrder and dst = zeroHub,
      THEN conjunct2, rule_format, OF c]
  have A': "snd (ConvertTo sourceOrder ?a zeroHub) =
     Some (Wrap (NumError ''ParseBool'' ''maybe'')
            ''unable to parse capsule.clastix.io/enable-node-ports annotation on tenant oil'')"
    using A by (simp add: enableNodePortsAnnotation_def)
  show ?thesis
    by (intro conjI) (rule A', rule B [THEN conjunct1], rule B [THEN conjunct2],
      rule C [THEN conjunct1], rule C [THEN conjunct2])
qed

subsection \<open>The annotations after a downgrade\<close>

lemma emitAnnotations_apply:
  "emitAnnotations m keys a k =
     (if k \<in> set keys \<and> zeroOr (m k) \<noteq> [] then Some (Join (zeroOr (m k)) '','') else a k)"
  unfolding emitAnnotations_def
  by (induction keys arbitrary: a) (auto simp: emitAnnotation_def zeroOr_def split: option.splits)

text \<open>
  The downgrade panics exactly when the allowed services are present and one of their
  two booleans is unset.
\<close>

lemma ConvertFrom_panics:
  "(ConvertFrom src t = Inl e) =
     (e = NilPointerDereference \<and>
      (\<exists>so as. b_ServiceOptions (b_Spec src) = Some so \<and> b_AllowedServices so = Some as \<and>
         (b_NodePort as = None \<or> b_ExternalName as = None)))"
  by (auto simp: ConvertFrom_def emitAllowedServices_def Let_def split: option.splits sum.splits)

lemma ConvertFrom_returns:
  "b_ServiceOptions (b_Spec src) = None \<Longrightarrow> \<exists>t'. ConvertFrom src t = Inr t'"
  by (cases "ConvertFrom src t") (auto simp: ConvertFrom_panics)

text \<open>
  Claim C3: the code does not do what the claim says. On a hub tenant whose allowed
  services are present with both booleans unset, the downgrade dereferences a nil
  pointer and panics (line 504); it returns no legacy instance.
\<close>

theorem downgrade_panics_on_unset_boolean:
  "ConvertFrom unsetAllowedServices zeroTenant = Inl NilPointerDereference"
  by (simp add: ConvertFrom_panics unsetAllowedServices_def)

lemma scope_other_keys:
  "resourceQuotaScopeAnnotation \<notin> set ownerKeys \<union> set proxyKeys"
  "resourceQuotaScopeAnnotation \<noteq> podAllowedImagePullPolicyAnnotation"
  "resourceQuotaScopeAnnotation \<noteq> podPriorityAllowedAnnotation"
  "resourceQuotaScopeAnnotation \<noteq> podPriorityAllowedRegexAnnotation"
  "resourceQuotaScopeAnnotation \<noteq> enableNodePortsAnnotation"
  "resourceQuotaScopeAnnotation \<noteq> enableExternalNameAnnotation"
  by (simp_all add: ownerKeys_def proxyKeys_def key_defs)

lemma emitAllowedServices_other:
  "emitAllowedServices s a = Inr a' \<Longrightarrow> k \<noteq> enableNodePortsAnnotation \<Longrightarrow>
   k \<noteq> enableExternalNameAnnotation \<Longrightarrow> a' k = a k"
  by (auto simp: emitAllowedServices_def split: option.splits)

lemma emitPriorityClasses_other:
  "k \<noteq> podPriorityAllowedAnnotation \<Longrightarrow> k \<noteq> podPriorityAllowedRegexAnnotation \<Longrightarrow>
   emitPriorityClasses s a k = a k"
  by (auto simp: emitPriorityClasses_def Let_def split: option.splits)

lemma emitImagePullPolicies_other:
  "k \<noteq> podAllowedImagePullPolicyAnnotation \<Longrightarrow> emitImagePullPolicies s a k = a k"
  by (auto simp: emitImagePullPolicies_def)

lemma emitResourceQuotaScope_other:
  "k \<noteq> resourceQuotaScopeAnnotation \<Longrightarrow> emitResourceQuotaScope s a k = a k"
  by (auto simp: emitResourceQuotaScope_def split: option.splits)

lemma ConvertFrom_annotations:
  assumes "ConvertFrom src t = Inr t'"
  shows "\<exists>a. Annotations (ObjectMeta t') = Some a \<and>
     emitAllowedServices (b_Spec src)
       (emitPriorityClasses (b_Spec src)
         (emitImagePullPolicies (b_Spec src)
           (emitResourceQuotaScope (b_Spec src)
              (snd (convertV1Beta1OwnerToV1Alpha1 src
                 (Owner (Spec t), lookup (Annotations (b_ObjectMeta src)))))))) = Inr a"
proof -
  have "(case Annotations (b_ObjectMeta src) of None \<Rightarrow> Map.empty | Some m \<Rightarrow> m) =
        lookup (Annotations (b_ObjectMeta src))"
    by (auto simp: lookup_def split: option.splits)
  with assms show ?thesis
    by (auto simp: ConvertFrom_def Let_def split: sum.splits)
qed

lemma ConvertFrom_scope:
  assumes "ConvertFrom src t = Inr t'"
  shows "GetAnnotations t' resourceQuotaScopeAnnotation =
     (case b_ResourceQuota (b_Spec src) of
        Some rq \<Rightarrow> Some (rq_Scope rq)
      | None \<Rightarrow> lookup (Annotations (b_ObjectMeta src)) resourceQuotaScopeAnnotation)"
proof -
  from ConvertFrom_annotations [OF assms] obtain a where
    a: "Annotations (ObjectMeta t') = Some a" and
    e: "emitAllowedServices (b_Spec src)
       (emitPriorityClasses (b_Spec src)
         (emitImagePullPolicies (b_Spec src)
           (emitResourceQuotaScope (b_Spec src)
              (snd (convertV1Beta1OwnerToV1Alpha1 src
                 (Owner (Spec t), lookup (Annotations (b_ObjectMeta src)))))))) = Inr a"
    by blast
  have "a resourceQuotaScopeAnnotation =
      emitResourceQuotaScope (b_Spec src)
              (snd (convertV1Beta1OwnerToV1Alpha1 src
                 (Owner (Spec t), lookup (Annotations (b_ObjectMeta src))))) resourceQuotaScopeAnnotation"
    using emitAllowedServices_other [OF e, of resourceQuotaScopeAnnotation]
    by (simp add: scope_other_keys emitPriorityClasses_other emitImagePullPolicies_other)
  also have "\<dots> = (case b_ResourceQuota (b_Spec src) of
        Some rq \<Rightarrow> Some (rq_Scope rq)
      | None \<Rightarrow> lookup (Annotations (b_ObjectMeta src)) resourceQuotaScopeAnnotation)"
    using scope_other_keys(1)
    by (simp add: emitResourceQuotaScope_def convertV1Beta1OwnerToV1Alpha1_def Let_def
        emitAnnotations_apply split: option.splits)
  finally show ?thesis using a by (simp add: GetAnnotations_def lookup_def)
qed

text \<open>
  Claim C8, as stated, at the zero value of the hub tenant, which has no resource
  quota: the downgrade returns and the legacy tenant has no scope annotation.
\<close>

theorem downgrade_scope_counterexample:
  "b_ResourceQuota (b_Spec zeroHub) = None \<and>
   \<not> isl (ConvertFrom zeroHub zeroTenant) \<and>
   GetAnnotations (projr (ConvertFrom zeroHub zeroTenant)) resourceQuotaScopeAnnotation = None"
proof -
  obtain t' where t': "ConvertFrom zeroHub zeroTenant = Inr t'"
    using ConvertFrom_returns [of zeroHub zeroTenant] by (auto simp: zeroHub_def)
  have "GetAnnotations t' resourceQuotaScopeAnnotation = None"
    by (simp add: ConvertFrom_scope [OF t']) (simp add: zeroHub_def lookup_def)
  with t' show ?thesis by (simp add: zeroHub_def)
qed

text \<open>
  Claim C8, amended. When the downgrade returns and the resource quota of the hub
  tenant is present, the scope annotation of the legacy tenant is the literal string of
  the scope. When the resource quota is absent, the downgrade writes no scope
  annotation: the key is as the metadata copied from the hub tenant has it.
\<close>

theorem downgrade_scope:
  assumes "ConvertFrom src t = Inr t'"
  shows "GetAnnotations t' resourceQuotaScopeAnnotation =
     (case b_ResourceQuota (b_Spec src) of
        Some rq \<Rightarrow> Some (rq_Scope rq)
      | None \<Rightarrow> lookup (Annotations (b_ObjectMeta src)) resourceQuotaScopeAnnotation)"
  using assms by (rule ConvertFrom_scope)

text \<open>C8 amended, at a hub tenant with a resource quota of scope \<open>Namespace\<close>.\<close>

theorem downgrade_scope_witness:
  "\<not> isl (ConvertFrom namespaceScoped zeroTenant) \<and>
   GetAnnotations (projr (ConvertFrom namespaceScoped zeroTenant)) resourceQuotaScopeAnnotation =
     Some ''Namespace''"
proof -
  obtain t' where t': "ConvertFrom namespaceScoped zeroTenant = Inr t'"
    using ConvertFrom_returns [of namespaceScoped zeroTenant]
    by (auto simp: zeroHub_def namespaceScoped_def)
  have "GetAnnotations t' resourceQuotaScopeAnnotation = Some ''Namespace''"
    using downgrade_scope [OF t']
    by (simp add: namespaceScoped_def ResourceQuotaScopeNamespace_def)
  with t' show ?thesis by simp
qed

subsection \<open>The decoded operations\<close>

lemma readOperations_recordOperation:
  "readOperations (recordOperation sk op owner ops) o' k =
     readOperations ops o' k @ (if o' = owner \<and> k = sk then [op] else [])"
  by (auto simp: readOperations_def recordOperation_def Let_def zeroOr_def split: option.splits)

lemma noEmptySlice_recordOperation:
  "noEmptySlice ops \<Longrightarrow> noEmptySlice (recordOperation sk op owner ops)"
  unfolding noEmptySlice_def recordOperation_def Let_def
  by (auto split: option.splits if_splits)

lemma readOperations_fold_recordOperation:
  "readOperations (fold (recordOperation sk op) names ops) o' k =
     readOperations ops o' k @ (if k = sk then replicate (count_list names o') op else [])"
  by (induction names arbitrary: ops) (auto simp: readOperations_recordOperation)

lemma noEmptySlice_fold_recordOperation:
  "noEmptySlice ops \<Longrightarrow> noEmptySlice (fold (recordOperation sk op) names ops)"
  by (induction names arbitrary: ops) (auto simp: noEmptySlice_recordOperation)

lemma readOperations_decodeAnnotation:
  "readOperations (decodeAnnotation ann sk a ops) o' k =
     readOperations ops o' k @ (if k = sk then decodedBy ann o' a else [])"
  by (auto simp: decodeAnnotation_def decodedBy_def operationOf_def
      readOperations_fold_recordOperation split: option.splits)

lemma noEmptySlice_decodeAnnotation:
  "noEmptySlice ops \<Longrightarrow> noEmptySlice (decodeAnnotation ann sk a ops)"
  by (auto simp: decodeAnnotation_def noEmptySlice_fold_recordOperation split: option.splits)

lemma readOperations_fold_decodeAnnotation:
  "readOperations (fold (decodeAnnotation ann sk) as ops) o' k =
     readOperations ops o' k @ (if k = sk then concat (map (decodedBy ann o') as) else [])"
  by (induction as arbitrary: ops) (auto simp: readOperations_decodeAnnotation)

lemma noEmptySlice_fold_decodeAnnotation:
  "noEmptySlice ops \<Longrightarrow> noEmptySlice (fold (decodeAnnotation ann sk) as ops)"
  by (induction as arbitrary: ops) (auto simp: noEmptySlice_decodeAnnotation)

lemma readOperations_decodeServiceKind:
  "readOperations (decodeServiceKind ann sk ops) o' k =
     readOperations ops o' k @ (if k = sk then decodedOperations ann o' sk else [])"
  by (simp add: decodeServiceKind_def decodedOperations_def readOperations_fold_decodeAnnotation)

lemma noEmptySlice_decodeServiceKind:
  "noEmptySlice ops \<Longrightarrow> noEmptySlice (decodeServiceKind ann sk ops)"
  by (simp add: decodeServiceKind_def noEmptySlice_fold_decodeAnnotation)

lemma readOperations_fold_decodeServiceKind:
  "readOperations (fold (decodeServiceKind ann) order ops) o' k =
     readOperations ops o' k @
     concat (map (\<lambda>sk. if k = sk then decodedOperations ann o' sk else []) order)"
  by (induction order arbitrary: ops) (auto simp: readOperations_decodeServiceKind)

lemma noEmptySlice_fold_decodeServiceKind:
  "noEmptySlice ops \<Longrightarrow> noEmptySlice (fold (decodeServiceKind ann) order ops)"
  by (induction order arbitrary: ops) (auto simp: noEmptySlice_decodeServiceKind)

lemma concat_map_select:
  "distinct xs \<Longrightarrow> concat (map (\<lambda>x. if k = x then f x else []) xs) = (if k \<in> set xs then f k else [])"
  by (induction xs) auto

lemma decodedOperations_unknown:
  "k \<notin> set proxyServiceKinds \<Longrightarrow> decodedOperations ann o' k = []"
  by (simp add: decodedOperations_def serviceKindToAnnotationMap_def proxyServiceKinds_def zeroOr_def)

lemma readOperations_decodeOperations:
  assumes "distinct order" "set order = set proxyServiceKinds"
  shows "readOperations (decodeOperations order ann) o' k = decodedOperations ann o' k"
proof -
  have "readOperations (decodeOperations order ann) o' k =
      (if k \<in> set order then decodedOperations ann o' k else [])"
    unfolding decodeOperations_def readOperations_fold_decodeServiceKind
    using assms(1) by (simp add: concat_map_select readOperations_def zeroOr_def)
  with assms(2) show ?thesis by (simp add: decodedOperations_unknown)
qed

lemma noEmptySlice_decodeOperations: "noEmptySlice (decodeOperations order ann)"
  unfolding decodeOperations_def
  by (rule noEmptySlice_fold_decodeServiceKind) (simp add: noEmptySlice_def)

subsection \<open>The owners of the upgraded tenant\<close>

lemma getProxySettingsForOwner_read:
  assumes "noEmptySlice ops"
  shows "getProxySettingsForOwner order ops n =
     concat (map (\<lambda>k. if readOperations ops n k = [] then []
                      else [\<lparr>p_Kind = k, p_Operations = readOperations ops n k\<rparr>]) order)"
proof (cases "ops n")
  case None
  then show ?thesis
    by (simp add: getProxySettingsForOwner_def readOperations_def zeroOr_def)
next
  case (Some m)
  have "(case m k of None \<Rightarrow> [] | Some v \<Rightarrow> [\<lparr>p_Kind = k, p_Operations = v\<rparr>]) =
        (if readOperations ops n k = [] then []
         else [\<lparr>p_Kind = k, p_Operations = readOperations ops n k\<rparr>])" for k
    using assms Some by (auto simp: readOperations_def zeroOr_def noEmptySlice_def split: option.splits)
  with Some show ?thesis by (simp add: getProxySettingsForOwner_def)
qed

lemma getProxySettingsForOwner_decoded:
  assumes "distinct order" "set order = set proxyServiceKinds"
  shows "getProxySettingsForOwner order' (decodeOperations order ann) n = settingsOf order' ann n"
  by (simp add: getProxySettingsForOwner_read [OF noEmptySlice_decodeOperations]
      readOperations_decodeOperations [OF assms] settingsOf_def cong: if_cong)

lemma fold_appendOwner:
  "fold (appendOwner sched ops kind) names owners =
     owners @ map (ownerAt sched ops) (enumerate (length owners) (map (\<lambda>n. (kind, n)) names))"
proof (induction names arbitrary: owners)
  case Nil
  then show ?case by simp
next
  case (Cons n names)
  show ?case
    by (simp add: Cons.IH) (simp add: appendOwner_def ownerAt_def)
qed

lemma appendOwnersOfKind_eq:
  "appendOwnersOfKind sched ops ann a owners =
     owners @ map (ownerAt sched ops) (enumerate (length owners) (namedBy ann a))"
  by (simp add: appendOwnersOfKind_def namedBy_def ownerKindOf_def fold_appendOwner
      split: option.splits)

lemma fold_appendOwnersOfKind:
  "fold (appendOwnersOfKind sched ops ann) keys owners =
     owners @ map (ownerAt sched ops) (enumerate (length owners) (concat (map (namedBy ann) keys)))"
proof (induction keys arbitrary: owners)
  case Nil
  then show ?case by simp
next
  case (Cons a keys)
  let ?F = "appendOwnersOfKind sched ops ann"
  have "fold ?F (a # keys) owners = fold ?F keys (?F a owners)" by simp
  also have "\<dots> = ?F a owners @
      map (ownerAt sched ops) (enumerate (length (?F a owners)) (concat (map (namedBy ann) keys)))"
    by (rule Cons.IH)
  also have "\<dots> = owners @
      map (ownerAt sched ops) (enumerate (length owners) (concat (map (namedBy ann) (a # keys))))"
    by (simp add: appendOwnersOfKind_eq enumerate_append_eq)
  finally show ?case .
qed

lemma ownersFrom_eq:
  "ownersFrom sched ops ann owner =
     map (ownerAt sched ops) (enumerate 0 (ownerEntries (rangeOwnerKinds sched) ann owner))"
  by (simp add: ownersFrom_def fold_appendOwnersOfKind ownerEntries_def)
     (simp add: appendOwner_def ownerAt_def)

lemma convert_eq:
  "convertV1Alpha1OwnerToV1Beta1 sched t =
     map (ownerAt sched (decodeOperations (rangeServiceKinds sched) (GetAnnotations t)))
       (enumerate 0 (ownerEntries (rangeOwnerKinds sched) (GetAnnotations t) (Owner (Spec t))))"
  by (simp add: convertV1Alpha1OwnerToV1Beta1_def Let_def ownersFrom_eq)

lemma length_convert:
  "length (convertV1Alpha1OwnerToV1Beta1 sched t) =
     length (ownerEntries (rangeOwnerKinds sched) (GetAnnotations t) (Owner (Spec t)))"
  by (simp add: convert_eq)

lemma nth_convert:
  assumes "i < length (convertV1Alpha1OwnerToV1Beta1 sched t)"
  shows "convertV1Alpha1OwnerToV1Beta1 sched t ! i =
     ownerAt sched (decodeOperations (rangeServiceKinds sched) (GetAnnotations t))
       (i, ownerEntries (rangeOwnerKinds sched) (GetAnnotations t) (Owner (Spec t)) ! i)"
  using assms by (simp add: convert_eq nth_enumerate_eq)

lemma map_kind_name_convert:
  "map (\<lambda>o'. (b_Kind o', b_Name o')) (convertV1Alpha1OwnerToV1Beta1 sched t) =
     ownerEntries (rangeOwnerKinds sched) (GetAnnotations t) (Owner (Spec t))"
proof -
  have "(\<lambda>o'. (b_Kind o', b_Name o')) \<circ> ownerAt sched ops = snd" for ops
    by (auto simp: ownerAt_def fun_eq_iff)
  then show ?thesis by (simp add: convert_eq)
qed

lemma mset_concat_map_perm:
  "mset xs = mset ys \<Longrightarrow> mset (concat (map f xs)) = mset (concat (map f ys))"
proof -
  assume a: "mset xs = mset ys"
  have "mset (concat (map f zs)) = sum_mset (image_mset (\<lambda>x. mset (f x)) (mset zs))" for zs
    by (induction zs) auto
  with a show ?thesis by simp
qed

lemma mset_settingsOf:
  assumes "distinct o1" "distinct o2" "set o1 = set o2"
  shows "mset (settingsOf o1 ann n) = mset (settingsOf o2 ann n)"
  unfolding settingsOf_def
  by (rule mset_concat_map_perm) (use assms in \<open>simp add: set_eq_iff_mset_eq_distinct\<close>)

lemma valid_schedule_sourceOrder: "valid_schedule sourceOrder"
  by (simp add: valid_schedule_def sourceOrder_def proxyServiceKinds_def ownerKindAnnotations_def
      enum_defs key_defs)

lemma valid_schedule_otherOrder: "valid_schedule otherOrder"
  by (auto simp add: valid_schedule_def otherOrder_def proxyServiceKinds_def ownerKindAnnotations_def
      enum_defs key_defs)

lemma b_Owners_withAllowedServices [simp]: "b_Owners (withAllowedServices x s) = b_Owners s"
  by (simp add: withAllowedServices_def)

lemma b_Owners_convertNodePorts: "convertNodePorts t s = Inr s' \<Longrightarrow> b_Owners s' = b_Owners s"
  by (auto simp: convertNodePorts_def split: option.splits sum.splits)

lemma b_Owners_convertExternalName: "convertExternalName t s = Inr s' \<Longrightarrow> b_Owners s' = b_Owners s"
  by (auto simp: convertExternalName_def split: option.splits sum.splits)

lemma b_Owners_convertSpecTo:
  "b_Owners (convertSpecTo sched t s) = convertV1Alpha1OwnerToV1Beta1 sched t"
  by (simp add: convertSpecTo_def Let_def)

lemma ConvertTo_owners:
  "b_Owners (b_Spec (fst (ConvertTo sched t dst))) = convertV1Alpha1OwnerToV1Beta1 sched t"
proof (cases "convertNodePorts t (convertSpecTo sched t (b_Spec dst))")
  case (Inl e)
  then show ?thesis by (simp add: ConvertTo_def Let_def b_Owners_convertSpecTo)
next
  case (Inr s1)
  note s1 = b_Owners_convertNodePorts [OF Inr]
  show ?thesis
  proof (cases "convertExternalName t s1")
    case (Inl e)
    with Inr s1 show ?thesis by (simp add: ConvertTo_def Let_def b_Owners_convertSpecTo)
  next
    case (Inr s2)
    with \<open>convertNodePorts t (convertSpecTo sched t (b_Spec dst)) = Inr s1\<close> s1
      b_Owners_convertExternalName [OF Inr]
    show ?thesis by (simp add: ConvertTo_def Let_def b_Owners_convertSpecTo)
  qed
qed

lemma convert_settings:
  assumes "valid_schedule sched"
  shows "convertV1Alpha1OwnerToV1Beta1 sched t =
     map (\<lambda>e. \<lparr>b_Kind = fst (snd e), b_Name = snd (snd e),
               b_ProxyOperations =
                 settingsOf (rangeOwnerOperations sched (fst e)) (GetAnnotations t) (snd (snd e))\<rparr>)
       (enumerate 0 (ownerEntries (rangeOwnerKinds sched) (GetAnnotations t) (Owner (Spec t))))"
proof -
  have v: "distinct (rangeServiceKinds sched)" "set (rangeServiceKinds sched) = set proxyServiceKinds"
    using assms by (simp_all add: valid_schedule_def)
  show ?thesis
    by (simp add: convert_eq ownerAt_def getProxySettingsForOwner_decoded [OF v])
qed

lemma in_convertD:
  assumes "valid_schedule sched" "ow \<in> set (convertV1Alpha1OwnerToV1Beta1 sched t)"
  shows "\<exists>i. b_ProxyOperations ow =
            settingsOf (rangeOwnerOperations sched i) (GetAnnotations t) (b_Name ow)"
  using assms(2) unfolding convert_settings [OF assms(1)] by auto

lemma operationsFor_settingsOf_aux:
  "operationsFor k (settingsOf order ann n) =
     concat (map (\<lambda>x. if k = x then decodedOperations ann n x else []) order)"
  unfolding operationsFor_def settingsOf_def
  by (induction order) auto

lemma operationsFor_settingsOf:
  assumes "distinct order" "k \<in> set order"
  shows "operationsFor k (settingsOf order ann n) = decodedOperations ann n k"
  using assms by (simp add: operationsFor_settingsOf_aux concat_map_select)

lemma count_list_replicate: "count_list (replicate n x) y = (if x = y then n else 0)"
  by (induction n) auto

lemma count_list_concat: "count_list (concat xss) y = sum_list (map (\<lambda>xs. count_list xs y) xss)"
  by (induction xss) auto

lemma sum_list_select:
  "distinct (map f as) \<Longrightarrow> a \<in> set as \<Longrightarrow>
   sum_list (map (\<lambda>a'. if f a' = f a then c a' else (0::nat)) as) = c a"
proof (induction as)
  case Nil
  then show ?case by simp
next
  case (Cons x as)
  show ?case
  proof (cases "x = a")
    case True
    from Cons.prems(1) True have "f a \<notin> f ` set as" by simp
    then have "\<forall>a'\<in>set as. f a' \<noteq> f a" by (metis image_eqI)
    then have "sum_list (map (\<lambda>a'. if f a' = f a then c a' else 0) as) = 0"
      by (induction as) auto
    with True show ?thesis by simp
  next
    case False
    with Cons show ?thesis by auto
  qed
qed

lemma table_cases:
  assumes "serviceKindToAnnotationMap sk = Some as"
  shows "sk \<in> set proxyServiceKinds \<and>
         map operationOf as = [ListOperation, UpdateOperation, DeleteOperation]"
  using serviceKindToAnnotationMap_cases [OF assms]
  by (elim disjE conjE) (simp_all add: proxyServiceKinds_def operationOf_def operation_facts)

lemma count_decodedOperations:
  assumes "serviceKindToAnnotationMap sk = Some as" "a \<in> set as" "ann a = Some val"
  shows "count_list (decodedOperations ann n sk) (operationOf a) = count_list (Split val) n"
proof -
  from table_cases [OF assms(1)] distinct_operations
  have d: "distinct (map operationOf as)" by simp
  have c: "count_list (decodedBy ann n a') (operationOf a) =
      (if operationOf a' = operationOf a
       then (case ann a' of None \<Rightarrow> 0 | Some v \<Rightarrow> count_list (Split v) n) else 0)" for a'
    by (simp add: decodedBy_def count_list_replicate split: option.splits)
  have "count_list (decodedOperations ann n sk) (operationOf a) =
      sum_list (map (\<lambda>a'. if operationOf a' = operationOf a
                          then (case ann a' of None \<Rightarrow> 0 | Some v \<Rightarrow> count_list (Split v) n)
                          else 0) as)"
    using assms(1)
    by (simp add: decodedOperations_def zeroOr_def count_list_concat comp_def c)
  also have "\<dots> = (case ann a of None \<Rightarrow> 0 | Some v \<Rightarrow> count_list (Split v) n)"
    by (rule sum_list_select [OF d assms(2)])
  finally show ?thesis using assms(3) by simp
qed

subsection \<open>Permissions of the upgraded owners\<close>

text \<open>
  Claim C10, as stated, at the tenant \<open>twoAlices\<close>, whose primary owner, a user, and
  whose one group are both named \<open>alice\<close>, when the two loops over the Go map
  \<^verbatim>\<open>ownerOperations\<close> visit its keys in different orders: the two entries carry the
  same two settings in different positions, so the two slices are not identical.
\<close>

theorem upgrade_permissions_by_name_counterexample:
  "b_Name (b_Owners (b_Spec (fst (ConvertTo otherOrder twoAlices zeroHub))) ! 0) =
   b_Name (b_Owners (b_Spec (fst (ConvertTo otherOrder twoAlices zeroHub))) ! 1) \<and>
   b_ProxyOperations (b_Owners (b_Spec (fst (ConvertTo otherOrder twoAlices zeroHub))) ! 0) =
     [\<lparr>p_Kind = ''StorageClasses'', p_Operations = [''Update'']\<rparr>,
      \<lparr>p_Kind = ''Nodes'', p_Operations = [''List'']\<rparr>] \<and>
   b_ProxyOperations (b_Owners (b_Spec (fst (ConvertTo otherOrder twoAlices zeroHub))) ! 1) =
     [\<lparr>p_Kind = ''Nodes'', p_Operations = [''List'']\<rparr>,
      \<lparr>p_Kind = ''StorageClasses'', p_Operations = [''Update'']\<rparr>] \<and>
   b_ProxyOperations (b_Owners (b_Spec (fst (ConvertTo otherOrder twoAlices zeroHub))) ! 0) \<noteq>
   b_ProxyOperations (b_Owners (b_Spec (fst (ConvertTo otherOrder twoAlices zeroHub))) ! 1)"
  by code_simp

text \<open>
  Claim C10, amended. In the owners of an upgraded tenant, the proxy settings of every
  entry, the primary owner at index 0 included, are fixed by the annotations and the
  name of the entry alone; the kind plays no part. They are \<open>settingsOf\<close>: one setting
  for each service kind under which the permission annotations list the name, in the
  order in which the loop of that call visits the Go map, and under each of the four
  service kinds the operations are \<open>decodedOperations\<close>, the operation of each of the
  kind's three annotations once for every occurrence of the name in its value. Two
  entries with the same name carry these same settings up to their order in the slice:
  they are equal as multisets, and equal as slices whenever the two loops take the same
  order.
\<close>

theorem upgrade_permissions_by_name:
  assumes "valid_schedule sched"
    and "os = b_Owners (b_Spec (fst (ConvertTo sched t dst)))"
    and "i < length os" and "j < length os"
    and "b_Name (os ! i) = b_Name (os ! j)"
  shows "b_ProxyOperations (os ! i) =
           settingsOf (rangeOwnerOperations sched i) (GetAnnotations t) (b_Name (os ! i)) \<and>
         b_ProxyOperations (os ! j) =
           settingsOf (rangeOwnerOperations sched j) (GetAnnotations t) (b_Name (os ! i)) \<and>
         (\<forall>k \<in> set proxyServiceKinds.
            operationsFor k (b_ProxyOperations (os ! i)) =
              decodedOperations (GetAnnotations t) (b_Name (os ! i)) k \<and>
            operationsFor k (b_ProxyOperations (os ! j)) =
              decodedOperations (GetAnnotations t) (b_Name (os ! i)) k) \<and>
         mset (b_ProxyOperations (os ! i)) = mset (b_ProxyOperations (os ! j)) \<and>
         (rangeOwnerOperations sched i = rangeOwnerOperations sched j \<longrightarrow>
            b_ProxyOperations (os ! i) = b_ProxyOperations (os ! j))"
proof -
  let ?ops = "decodeOperations (rangeServiceKinds sched) (GetAnnotations t)"
  have os: "os = convertV1Alpha1OwnerToV1Beta1 sched t"
    using assms(2) by (simp add: ConvertTo_owners)
  have v: "distinct (rangeServiceKinds sched)" "set (rangeServiceKinds sched) = set proxyServiceKinds"
    "\<And>n. distinct (rangeOwnerOperations sched n)"
    "\<And>n. set (rangeOwnerOperations sched n) = set proxyServiceKinds"
    using assms(1) by (simp_all add: valid_schedule_def)
  have p: "b_ProxyOperations (os ! k) =
      getProxySettingsForOwner (rangeOwnerOperations sched k) ?ops (b_Name (os ! k))"
    if "k < length os" for k
    using that unfolding os by (simp add: nth_convert ownerAt_def)
  have s: "b_ProxyOperations (os ! k) =
      settingsOf (rangeOwnerOperations sched k) (GetAnnotations t) (b_Name (os ! k))"
    if "k < length os" for k
    using that by (simp add: p getProxySettingsForOwner_decoded [OF v(1,2)])
  have si: "b_ProxyOperations (os ! i) =
      settingsOf (rangeOwnerOperations sched i) (GetAnnotations t) (b_Name (os ! i))"
    by (rule s [OF assms(3)])
  have sj: "b_ProxyOperations (os ! j) =
      settingsOf (rangeOwnerOperations sched j) (GetAnnotations t) (b_Name (os ! i))"
    using s [OF assms(4)] assms(5) by simp
  have f: "operationsFor k (settingsOf (rangeOwnerOperations sched n) (GetAnnotations t) nm) =
      decodedOperations (GetAnnotations t) nm k" if "k \<in> set proxyServiceKinds" for k n nm
    by (rule operationsFor_settingsOf [OF v(3)]) (use that v(4) in simp)
  have m: "mset (b_ProxyOperations (os ! i)) = mset (b_ProxyOperations (os ! j))"
    unfolding si sj
    by (rule mset_settingsOf [OF v(3) v(3)]) (simp add: v(4))
  have e: "rangeOwnerOperations sched i = rangeOwnerOperations sched j \<longrightarrow>
      b_ProxyOperations (os ! i) = b_ProxyOperations (os ! j)"
    unfolding si sj by simp
  have fk: "\<forall>k \<in> set proxyServiceKinds.
            operationsFor k (b_ProxyOperations (os ! i)) =
              decodedOperations (GetAnnotations t) (b_Name (os ! i)) k \<and>
            operationsFor k (b_ProxyOperations (os ! j)) =
              decodedOperations (GetAnnotations t) (b_Name (os ! i)) k"
    unfolding si sj using f by simp
  show ?thesis by (intro conjI) (rule si, rule sj, rule fk, rule m, rule e)
qed

text \<open>
  C10 amended, at \<open>twoAlices\<close>: the settings of the two entries named \<open>alice\<close> under a
  schedule that visits the service kinds in two different orders for the two entries,
  and their equality under one that visits them in the same order.
\<close>

theorem upgrade_permissions_by_name_witness:
  "b_Name (b_Owners (b_Spec (fst (ConvertTo otherOrder twoAlices zeroHub))) ! 0) =
   b_Name (b_Owners (b_Spec (fst (ConvertTo otherOrder twoAlices zeroHub))) ! 1) \<and>
   b_Kind (b_Owners (b_Spec (fst (ConvertTo otherOrder twoAlices zeroHub))) ! 0) = ''User'' \<and>
   b_Kind (b_Owners (b_Spec (fst (ConvertTo otherOrder twoAlices zeroHub))) ! 1) = ''Group'' \<and>
   b_ProxyOperations (b_Owners (b_Spec (fst (ConvertTo otherOrder twoAlices zeroHub))) ! 0) =
     [\<lparr>p_Kind = ''StorageClasses'', p_Operations = [''Update'']\<rparr>,
      \<lparr>p_Kind = ''Nodes'', p_Operations = [''List'']\<rparr>] \<and>
   b_ProxyOperations (b_Owners (b_Spec (fst (ConvertTo otherOrder twoAlices zeroHub))) ! 1) =
     [\<lparr>p_Kind = ''Nodes'', p_Operations = [''List'']\<rparr>,
      \<lparr>p_Kind = ''StorageClasses'', p_Operations = [''Update'']\<rparr>] \<and>
   operationsFor NodesProxy
     (b_ProxyOperations (b_Owners (b_Spec (fst (ConvertTo otherOrder twoAlices zeroHub))) ! 1)) =
     [''List''] \<and>
   mset (b_ProxyOperations (b_Owners (b_Spec (fst (ConvertTo otherOrder twoAlices zeroHub))) ! 0)) =
   mset (b_ProxyOperations (b_Owners (b_Spec (fst (ConvertTo otherOrder twoAlices zeroHub))) ! 1)) \<and>
   b_ProxyOperations (b_Owners (b_Spec (fst (ConvertTo sourceOrder twoAlices zeroHub))) ! 0) =
   b_ProxyOperations (b_Owners (b_Spec (fst (ConvertTo sourceOrder twoAlices zeroHub))) ! 1)"
proof -
  let ?os = "b_Owners (b_Spec (fst (ConvertTo otherOrder twoAlices zeroHub)))"
  let ?os' = "b_Owners (b_Spec (fst (ConvertTo sourceOrder twoAlices zeroHub)))"
  have l: "0 < length ?os" "1 < length ?os" by code_simp+
  have n: "b_Name (?os ! 0) = b_Name (?os ! 1)" by code_simp
  have k: "b_Kind (?os ! 0) = ''User''" "b_Kind (?os ! 1) = ''Group''" by code_simp+
  have l': "0 < length ?os'" "1 < length ?os'" by code_simp+
  have n': "b_Name (?os' ! 0) = b_Name (?os' ! 1)" by code_simp
  have r: "rangeOwnerOperations sourceOrder 0 = rangeOwnerOperations sourceOrder 1"
    by (simp add: sourceOrder_def)
  have e0: "settingsOf (rangeOwnerOperations otherOrder 0) (GetAnnotations twoAlices) (b_Name (?os ! 0)) =
     [\<lparr>p_Kind = ''StorageClasses'', p_Operations = [''Update'']\<rparr>,
      \<lparr>p_Kind = ''Nodes'', p_Operations = [''List'']\<rparr>]"
    by code_simp
  have e1: "settingsOf (rangeOwnerOperations otherOrder 1) (GetAnnotations twoAlices) (b_Name (?os ! 0)) =
     [\<lparr>p_Kind = ''Nodes'', p_Operations = [''List'']\<rparr>,
      \<lparr>p_Kind = ''StorageClasses'', p_Operations = [''Update'']\<rparr>]"
    by code_simp
  have d: "decodedOperations (GetAnnotations twoAlices) (b_Name (?os ! 0)) NodesProxy = [''List'']"
    by code_simp
  have np: "NodesProxy \<in> set proxyServiceKinds" by (simp add: proxyServiceKinds_def)
  note T = upgrade_permissions_by_name [OF valid_schedule_otherOrder refl l n]
  note T' = upgrade_permissions_by_name [OF valid_schedule_sourceOrder refl l' n']
  have 1: "b_ProxyOperations (?os ! 0) =
     [\<lparr>p_Kind = ''StorageClasses'', p_Operations = [''Update'']\<rparr>,
      \<lparr>p_Kind = ''Nodes'', p_Operations = [''List'']\<rparr>]"
    using T [THEN conjunct1] e0 by simp
  have 2: "b_ProxyOperations (?os ! 1) =
     [\<lparr>p_Kind = ''Nodes'', p_Operations = [''List'']\<rparr>,
      \<lparr>p_Kind = ''StorageClasses'', p_Operations = [''Update'']\<rparr>]"
    using T [THEN conjunct2, THEN conjunct1] e1 by simp
  have 3: "operationsFor NodesProxy (b_ProxyOperations (?os ! 1)) = [''List'']"
    using T [THEN conjunct2, THEN conjunct2, THEN conjunct1, rule_format, OF np, THEN conjunct2] d
    by simp
  note 4 = T [THEN conjunct2, THEN conjunct2, THEN conjunct2, THEN conjunct1]
  note 5 = T' [THEN conjunct2, THEN conjunct2, THEN conjunct2, THEN conjunct2, rule_format, OF r]
  show ?thesis by (intro conjI) (rule n, rule k(1), rule k(2), rule 1, rule 2, rule 3, rule 4, rule 5)
qed

subsection \<open>A name that occurs twice under one permission key\<close>

text \<open>
  Claim C6, as stated, at the tenant \<open>bobTwice\<close>, where \<open>enable-node-listing\<close> is
  \<open>bob,bob\<close> and \<open>bob\<close> is a user: the upgraded owner \<open>bob\<close> has the operation \<open>List\<close>
  twice under \<open>Nodes\<close>.
\<close>

theorem upgrade_keeps_duplicates_counterexample:
  "GetAnnotations bobTwice enableNodeListingAnnotation = Some ''bob,bob'' \<and>
   b_Owners (b_Spec (fst (ConvertTo sourceOrder bobTwice zeroHub))) =
   [\<lparr>b_Kind = ''User'', b_Name = ''alice'', b_ProxyOperations = []\<rparr>,
    \<lparr>b_Kind = ''User'', b_Name = ''bob'',
     b_ProxyOperations = [\<lparr>p_Kind = ''Nodes'', p_Operations = [''List'', ''List'']\<rparr>]\<rparr>]"
  by code_simp

text \<open>
  Claim C6, amended. The decoding appends: for each of the twelve permission keys,
  given by a service kind, one of its annotations and the operation of that annotation,
  every upgraded owner has that operation under that service kind as many times as its
  name occurs in the comma list of the key. A name that occurs twice gets the operation
  twice.
\<close>

theorem upgrade_keeps_duplicates:
  assumes "valid_schedule sched"
    and "serviceKindToAnnotationMap sk = Some as" and "a \<in> set as"
    and "annotationToOperationMap a = Some op"
    and "GetAnnotations t a = Some val"
    and "ow \<in> set (b_Owners (b_Spec (fst (ConvertTo sched t dst))))"
  shows "count_list (concat (map p_Operations
            (filter (\<lambda>s. p_Kind s = sk) (b_ProxyOperations ow)))) op =
         count_list (Split val) (b_Name ow)"
proof -
  from assms(6) have "ow \<in> set (convertV1Alpha1OwnerToV1Beta1 sched t)"
    by (simp add: ConvertTo_owners)
  from in_convertD [OF assms(1) this] obtain i where
    i: "b_ProxyOperations ow = settingsOf (rangeOwnerOperations sched i) (GetAnnotations t) (b_Name ow)"
    by blast
  have v: "distinct (rangeOwnerOperations sched i)"
    "set (rangeOwnerOperations sched i) = set proxyServiceKinds"
    using assms(1) by (simp_all add: valid_schedule_def)
  have sk: "sk \<in> set (rangeOwnerOperations sched i)"
    using table_cases [OF assms(2)] v(2) by simp
  have op: "operationOf a = op" using assms(4) by (simp add: operationOf_def)
  have "concat (map p_Operations (filter (\<lambda>s. p_Kind s = sk) (b_ProxyOperations ow))) =
      decodedOperations (GetAnnotations t) (b_Name ow) sk"
    using operationsFor_settingsOf [OF v(1) sk] by (simp add: i operationsFor_def)
  then show ?thesis
    using count_decodedOperations [where ann = "GetAnnotations t" and n = "b_Name ow", OF assms(2,3,5)] op
    by simp
qed

text \<open>C6 amended, at \<open>bobTwice\<close>: the owner at index 1 is \<open>bob\<close>, who has \<open>List\<close> twice.\<close>

theorem upgrade_keeps_duplicates_witness:
  "count_list (concat (map p_Operations (filter (\<lambda>s. p_Kind s = NodesProxy)
      (b_ProxyOperations (b_Owners (b_Spec (fst (ConvertTo sourceOrder bobTwice zeroHub))) ! 1)))))
     ListOperation = 2"
proof -
  let ?os = "b_Owners (b_Spec (fst (ConvertTo sourceOrder bobTwice zeroHub)))"
  have 1: "serviceKindToAnnotationMap NodesProxy =
      Some [enableNodeListingAnnotation, enableNodeUpdateAnnotation, enableNodeDeletionAnnotation]"
    by code_simp
  have 2: "enableNodeListingAnnotation \<in>
      set [enableNodeListingAnnotation, enableNodeUpdateAnnotation, enableNodeDeletionAnnotation]"
    by simp
  have 3: "annotationToOperationMap enableNodeListingAnnotation = Some ListOperation" by code_simp
  have 4: "GetAnnotations bobTwice enableNodeListingAnnotation = Some ''bob,bob''" by code_simp
  have 5: "?os ! 1 \<in> set ?os" by code_simp
  have 6: "count_list (Split ''bob,bob'') (b_Name (?os ! 1)) = 2" by code_simp
  from upgrade_keeps_duplicates [OF valid_schedule_sourceOrder 1 2 3 4 5] 6
  show ?thesis by simp
qed

subsection \<open>An owner-kind annotation with the empty value\<close>

lemma ownerKindOf_inj:
  assumes "annotationToOwnerKindMap a = Some kind" "a' \<in> set ownerKindAnnotations" "a' \<noteq> a"
  shows "ownerKindOf a' \<noteq> kind"
proof -
  have k: "ownerKindOf ownerUsersAnnotation = UserOwner"
    "ownerKindOf ownerGroupsAnnotation = GroupOwner"
    "ownerKindOf ownerServiceAccountAnnotation = ServiceAccountOwner"
    by (simp_all add: ownerKindOf_def annotationToOwnerKindMap_def key_defs)
  from assms(1) have "(a = ownerUsersAnnotation \<and> kind = UserOwner) \<or>
      (a = ownerGroupsAnnotation \<and> kind = GroupOwner) \<or>
      (a = ownerServiceAccountAnnotation \<and> kind = ServiceAccountOwner)"
    unfolding annotationToOwnerKindMap_def by (simp split: if_splits)
  with assms(2,3) distinct_ownerKinds show ?thesis
    by (auto simp: ownerKindAnnotations_def k)
qed

lemma annotationToOwnerKindMap_dom:
  "annotationToOwnerKindMap a = Some kind \<Longrightarrow> a \<in> set ownerKindAnnotations"
  unfolding annotationToOwnerKindMap_def ownerKindAnnotations_def by (simp split: if_splits)

lemma filter_concat_select:
  assumes "distinct xs" "a \<in> set xs"
    and "\<And>x. x \<in> set xs \<Longrightarrow> x \<noteq> a \<Longrightarrow> filter P (f x) = []"
    and "filter P (f a) = f a"
  shows "filter P (concat (map f xs)) = f a"
  using assms
proof (induction xs)
  case Nil
  then show ?case by simp
next
  case (Cons x xs)
  show ?case
  proof (cases "x = a")
    case True
    with Cons.prems have "\<And>y. y \<in> set xs \<Longrightarrow> filter P (f y) = []" by auto
    then have "filter P (concat (map f xs)) = []"
      by (induction xs) auto
    with True Cons.prems(4) show ?thesis by simp
  next
    case False
    with Cons show ?thesis by auto
  qed
qed

lemma tl_convert:
  "map (\<lambda>o'. (b_Kind o', b_Name o')) (tl (convertV1Alpha1OwnerToV1Beta1 sched t)) =
     concat (map (namedBy (GetAnnotations t)) (rangeOwnerKinds sched))"
  using map_kind_name_convert [of sched t]
  unfolding ownerEntries_def by (metis list.sel(3) map_tl)

text \<open>
  Claim C7, as stated, at the tenant \<open>emptyGroups\<close>, whose group annotation is present
  with the empty string: the upgrade appends a group whose name is the empty string.
\<close>

theorem upgrade_empty_owner_annotation_counterexample:
  "GetAnnotations emptyGroups ownerGroupsAnnotation = Some [] \<and>
   b_Owners (b_Spec (fst (ConvertTo sourceOrder emptyGroups zeroHub))) =
   [\<lparr>b_Kind = ''User'', b_Name = ''alice'', b_ProxyOperations = []\<rparr>,
    \<lparr>b_Kind = ''Group'', b_Name = [], b_ProxyOperations = []\<rparr>]"
  by code_simp

text \<open>
  Claim C7, amended. An owner-kind annotation that is present with the empty string is
  not treated as absent: \<^verbatim>\<open>strings.Split\<close> gives one empty name, and the upgrade appends
  exactly one owner of the kind of that key, whose name is the empty string. (The owners
  after the primary owner that have this kind are the ones of this key.)
\<close>

theorem upgrade_empty_owner_annotation:
  assumes "valid_schedule sched"
    and "annotationToOwnerKindMap a = Some kind"
    and "GetAnnotations t a = Some []"
  shows "map b_Name (filter (\<lambda>ow. b_Kind ow = kind)
            (tl (b_Owners (b_Spec (fst (ConvertTo sched t dst)))))) = [[]]"
proof -
  let ?os = "tl (convertV1Alpha1OwnerToV1Beta1 sched t)"
  let ?P = "\<lambda>e. fst e = kind"
  have v: "distinct (rangeOwnerKinds sched)" "set (rangeOwnerKinds sched) = set ownerKindAnnotations"
    using assms(1) by (simp_all add: valid_schedule_def)
  have a: "a \<in> set (rangeOwnerKinds sched)"
    using annotationToOwnerKindMap_dom [OF assms(2)] v(2) by simp
  have na: "namedBy (GetAnnotations t) a = [(kind, [])]"
    using assms(2,3) by (simp add: namedBy_def ownerKindOf_def)
  have other: "filter ?P (namedBy (GetAnnotations t) x) = []"
    if "x \<in> set (rangeOwnerKinds sched)" "x \<noteq> a" for x
    using ownerKindOf_inj [OF assms(2) _ that(2)] that(1) v(2)
    by (auto simp: namedBy_def split: option.splits)
  have "filter ?P (concat (map (namedBy (GetAnnotations t)) (rangeOwnerKinds sched))) =
      namedBy (GetAnnotations t) a"
    by (rule filter_concat_select [OF v(1) a other]) (simp_all add: na)
  then have "filter ?P (map (\<lambda>o'. (b_Kind o', b_Name o')) ?os) = [(kind, [])]"
    by (simp add: tl_convert na)
  then have "map (\<lambda>o'. (b_Kind o', b_Name o')) (filter (\<lambda>ow. b_Kind ow = kind) ?os) = [(kind, [])]"
    by (simp add: filter_map comp_def)
  then have "map snd (map (\<lambda>o'. (b_Kind o', b_Name o')) (filter (\<lambda>ow. b_Kind ow = kind) ?os)) = [[]]"
    by simp
  then show ?thesis by (simp add: ConvertTo_owners comp_def)
qed

text \<open>C7 amended, at \<open>emptyGroups\<close>.\<close>

theorem upgrade_empty_owner_annotation_witness:
  "map b_Name (filter (\<lambda>ow. b_Kind ow = GroupOwner)
      (tl (b_Owners (b_Spec (fst (ConvertTo otherOrder emptyGroups zeroHub)))))) = [[]]"
proof -
  have 1: "annotationToOwnerKindMap ownerGroupsAnnotation = Some GroupOwner" by code_simp
  have 2: "GetAnnotations emptyGroups ownerGroupsAnnotation = Some []" by code_simp
  show ?thesis by (rule upgrade_empty_owner_annotation [OF valid_schedule_otherOrder 1 2])
qed

subsection \<open>Names that only the permission annotations mention\<close>







subsection \<open>The permission keys after a downgrade\<close>

lemma zeroOr_appendName:
  "zeroOr (appendName k name m k') = zeroOr (m k') @ (if k' = k then [name] else [])"
  by (simp add: appendName_def zeroOr_def)

lemma zeroOr_collectOperation:
  "zeroOr (collectOperation name kind op pa k') =
     zeroOr (pa k') @ (if proxyAnnotationOf kind op = Some k' then [name] else [])"
  by (auto simp: collectOperation_def zeroOr_appendName split: option.splits)

lemma zeroOr_fold_collectOperation:
  "zeroOr (fold (collectOperation name kind) ops pa k') =
     zeroOr (pa k') @
     concat (map (\<lambda>op. if proxyAnnotationOf kind op = Some k' then [name] else []) ops)"
  by (induction ops arbitrary: pa) (simp_all add: zeroOr_collectOperation)

lemma zeroOr_fold_collectSetting:
  "zeroOr (fold (collectSetting name) settings pa k') =
     zeroOr (pa k') @
     concat (map (\<lambda>s. concat (map (\<lambda>op. if proxyAnnotationOf (p_Kind s) op = Some k'
                                         then [name] else []) (p_Operations s))) settings)"
  by (induction settings arbitrary: pa)
     (simp_all add: collectSetting_def zeroOr_fold_collectOperation)

lemma proxyAnnotations_ownerStep:
  "zeroOr (proxyAnnotations (ownerStep io st) k') =
     zeroOr (proxyAnnotations st k') @ contribution k' (snd io)"
  by (simp add: ownerStep_def Let_def zeroOr_fold_collectSetting contribution_def)

lemma proxyAnnotations_fold_ownerStep:
  "zeroOr (proxyAnnotations (fold ownerStep (enumerate n owners) st) k') =
     zeroOr (proxyAnnotations st k') @ concat (map (contribution k') owners)"
  by (induction owners arbitrary: n st) (simp_all add: proxyAnnotations_ownerStep)

lemma proxyAnnotationOf_cases:
  assumes "proxyAnnotationOf kind op = Some a"
  shows "(kind = NodesProxy \<and> op = ListOperation \<and> a = enableNodeListingAnnotation) \<or>
     (kind = NodesProxy \<and> op = UpdateOperation \<and> a = enableNodeUpdateAnnotation) \<or>
     (kind = NodesProxy \<and> op = DeleteOperation \<and> a = enableNodeDeletionAnnotation) \<or>
     (kind = PriorityClassesProxy \<and> op = ListOperation \<and> a = enablePriorityClassListingAnnotation) \<or>
     (kind = PriorityClassesProxy \<and> op = UpdateOperation \<and> a = enablePriorityClassUpdateAnnotation) \<or>
     (kind = PriorityClassesProxy \<and> op = DeleteOperation \<and> a = enablePriorityClassDeletionAnnotation) \<or>
     (kind = StorageClassesProxy \<and> op = ListOperation \<and> a = enableStorageClassListingAnnotation) \<or>
     (kind = StorageClassesProxy \<and> op = UpdateOperation \<and> a = enableStorageClassUpdateAnnotation) \<or>
     (kind = StorageClassesProxy \<and> op = DeleteOperation \<and> a = enableStorageClassDeletionAnnotation) \<or>
     (kind = IngressClassesProxy \<and> op = ListOperation \<and> a = enableIngressClassListingAnnotation) \<or>
     (kind = IngressClassesProxy \<and> op = UpdateOperation \<and> a = enableIngressClassUpdateAnnotation) \<or>
     (kind = IngressClassesProxy \<and> op = DeleteOperation \<and> a = enableIngressClassDeletionAnnotation)"
  using assms unfolding proxyAnnotationOf_def by (auto split: if_splits)

text \<open>The switches of the downgrade and the tables of the upgrade describe the same twelve keys.\<close>

lemma proxyAnnotationOf_table:
  assumes "proxyAnnotationOf kind op = Some a"
  shows "\<exists>as. serviceKindToAnnotationMap kind = Some as \<and> a \<in> set as \<and>
     annotationToOperationMap a = Some op \<and> a \<in> set proxyKeys"
  using proxyAnnotationOf_cases [OF assms]
  by (elim disjE conjE) (simp_all add: key_facts operation_facts proxyKeys_def)

lemma table_disjoint:
  assumes "serviceKindToAnnotationMap k = Some as" "serviceKindToAnnotationMap k' = Some as'"
    and "a \<in> set as" "a \<in> set as'"
  shows "k = k'"
  using serviceKindToAnnotationMap_cases [OF assms(1)] serviceKindToAnnotationMap_cases [OF assms(2)]
    assms(3,4)
  by (elim disjE conjE) (auto simp: key_neq)

lemma table_proxyAnnotationOf:
  assumes "serviceKindToAnnotationMap kind = Some as" "a \<in> set as"
  shows "proxyAnnotationOf kind (operationOf a) = Some a"
proof -
  have d: "NodesProxy \<noteq> PriorityClassesProxy" "NodesProxy \<noteq> StorageClassesProxy"
    "NodesProxy \<noteq> IngressClassesProxy" "PriorityClassesProxy \<noteq> StorageClassesProxy"
    "PriorityClassesProxy \<noteq> IngressClassesProxy" "StorageClassesProxy \<noteq> IngressClassesProxy"
    "ListOperation \<noteq> UpdateOperation" "ListOperation \<noteq> DeleteOperation"
    "UpdateOperation \<noteq> DeleteOperation"
    by (simp_all add: enum_defs)
  from serviceKindToAnnotationMap_cases [OF assms(1)] assms(2) show ?thesis
    by (elim disjE conjE)
       (auto simp: operationOf_def operation_facts proxyAnnotationOf_def d d [symmetric])
qed

lemma proxyAnnotationOf_inj:
  assumes "proxyAnnotationOf kind op = Some a" "proxyAnnotationOf kind' op' = Some a"
  shows "kind = kind' \<and> op = op'"
proof -
  from proxyAnnotationOf_table [OF assms(1)] obtain as where
    1: "serviceKindToAnnotationMap kind = Some as" "a \<in> set as"
       "annotationToOperationMap a = Some op"
    by blast
  from proxyAnnotationOf_table [OF assms(2)] obtain as' where
    2: "serviceKindToAnnotationMap kind' = Some as'" "a \<in> set as'"
       "annotationToOperationMap a = Some op'"
    by blast
  from 1(3) 2(3) have "op = op'" by simp
  moreover have "kind = kind'" by (rule table_disjoint [OF 1(1) 2(1) 1(2) 2(2)])
  ultimately show ?thesis by simp
qed

lemma concat_map_if_replicate:
  "concat (map (\<lambda>x. if x = y then [n] else []) xs) = replicate (count_list xs y) n"
  by (induction xs) auto

lemma concat_map_Nil: "concat (map (\<lambda>x. []) xs) = []"
  by (induction xs) auto

lemma contribution_eq:
  assumes "proxyAnnotationOf kind op = Some a"
  shows "contribution a ow =
     replicate (count_list (operationsFor kind (b_ProxyOperations ow)) op) (b_Name ow)"
proof -
  have e: "(proxyAnnotationOf k' op' = Some a) = (k' = kind \<and> op' = op)" for k' op'
    using proxyAnnotationOf_inj [OF assms, of k' op'] assms by blast
  have i: "concat (map (\<lambda>op'. if k' = kind \<and> op' = op then [n] else []) ops) =
      (if k' = kind then replicate (count_list ops op) n else [])" for k' ops n
    by (simp add: concat_map_if_replicate concat_map_Nil)
  have "concat (map (\<lambda>s. concat (map (\<lambda>op'. if p_Kind s = kind \<and> op' = op then [n] else [])
                                  (p_Operations s))) settings) =
        replicate (count_list (operationsFor kind settings) op) n" for settings n
    unfolding i
    by (induction settings) (simp_all add: operationsFor_def replicate_add)
  then show ?thesis by (simp add: contribution_def e)
qed

lemma zeroOr_proxyAnnotationsInit: "zeroOr (proxyAnnotationsInit k) = []"
  by (simp add: proxyAnnotationsInit_def zeroOr_def)

lemma proxyAnnotations_collectOwners:
  assumes "proxyAnnotationOf kind op = Some a"
  shows "zeroOr (proxyAnnotations (collectOwners owners owner0) a) = holders kind op owners"
  by (simp add: collectOwners_def proxyAnnotations_fold_ownerStep zeroOr_proxyAnnotationsInit
      holders_def contribution_eq [OF assms] cong: map_cong)

lemma proxyKeys_other:
  assumes "a \<in> set proxyKeys"
  shows "a \<notin> set ownerKeys" "a \<noteq> resourceQuotaScopeAnnotation"
    "a \<noteq> podAllowedImagePullPolicyAnnotation" "a \<noteq> podPriorityAllowedAnnotation"
    "a \<noteq> podPriorityAllowedRegexAnnotation" "a \<noteq> enableNodePortsAnnotation"
    "a \<noteq> enableExternalNameAnnotation"
  using assms by (auto simp: proxyKeys_def ownerKeys_def key_neq)

lemma ConvertFrom_proxy_key:
  assumes "ConvertFrom src t = Inr t'" "proxyAnnotationOf kind op = Some a"
  shows "GetAnnotations t' a =
     (if holders kind op (b_Owners (b_Spec src)) = []
      then lookup (Annotations (b_ObjectMeta src)) a
      else Some (Join (holders kind op (b_Owners (b_Spec src))) '',''))"
proof -
  from proxyAnnotationOf_table [OF assms(2)] have k: "a \<in> set proxyKeys" by blast
  note o = proxyKeys_other [OF k]
  from ConvertFrom_annotations [OF assms(1)] obtain ann where
    a: "Annotations (ObjectMeta t') = Some ann" and
    e: "emitAllowedServices (b_Spec src)
       (emitPriorityClasses (b_Spec src)
         (emitImagePullPolicies (b_Spec src)
           (emitResourceQuotaScope (b_Spec src)
              (snd (convertV1Beta1OwnerToV1Alpha1 src
                 (Owner (Spec t), lookup (Annotations (b_ObjectMeta src)))))))) = Inr ann"
    by blast
  have "ann a = snd (convertV1Beta1OwnerToV1Alpha1 src
                 (Owner (Spec t), lookup (Annotations (b_ObjectMeta src)))) a"
    using emitAllowedServices_other [OF e, of a] o
    by (simp add: emitPriorityClasses_other emitImagePullPolicies_other emitResourceQuotaScope_other)
  also have "\<dots> = (if holders kind op (b_Owners (b_Spec src)) = []
      then lookup (Annotations (b_ObjectMeta src)) a
      else Some (Join (holders kind op (b_Owners (b_Spec src))) '',''))"
    using k o(1)
    by (simp add: convertV1Beta1OwnerToV1Alpha1_def Let_def emitAnnotations_apply
        proxyAnnotations_collectOwners [OF assms(2)])
  finally show ?thesis using a by (simp add: GetAnnotations_def lookup_def)
qed

subsection \<open>The order of the two loops that write the collected names\<close>

lemma emitAnnotations_order:
  assumes "\<forall>k. zeroOr (m k) \<noteq> [] \<longrightarrow> k \<in> set keys \<and> k \<in> set keys'"
  shows "emitAnnotations m keys a = emitAnnotations m keys' a"
  using assms by (auto simp: emitAnnotations_apply fun_eq_iff)

lemma proxyAnnotations_keys:
  assumes "zeroOr (proxyAnnotations (collectOwners owners owner0) k) \<noteq> []"
  shows "k \<in> set proxyKeys"
proof -
  from assms obtain ow where "contribution k ow \<noteq> []"
    by (auto simp: collectOwners_def proxyAnnotations_fold_ownerStep zeroOr_proxyAnnotationsInit)
  then obtain kind op where "proxyAnnotationOf kind op = Some k"
    by (auto simp: contribution_def split: if_splits)
  from proxyAnnotationOf_table [OF this] show ?thesis by blast
qed

lemma collectOwnerKind_keys:
  assumes "\<forall>k. zeroOr (oa k) \<noteq> [] \<longrightarrow> k \<in> set ownerKeys"
  shows "\<forall>k. zeroOr (collectOwnerKind ow oa k) \<noteq> [] \<longrightarrow> k \<in> set ownerKeys"
  using assms by (auto simp: collectOwnerKind_def appendName_def zeroOr_def ownerKeys_def)

lemma ownersAnnotations_ownerStep:
  assumes "\<forall>k. zeroOr (ownersAnnotations st k) \<noteq> [] \<longrightarrow> k \<in> set ownerKeys"
  shows "\<forall>k. zeroOr (ownersAnnotations (ownerStep io st) k) \<noteq> [] \<longrightarrow> k \<in> set ownerKeys"
  using collectOwnerKind_keys [OF assms] assms by (simp add: ownerStep_def Let_def)

lemma ownersAnnotations_fold_ownerStep:
  assumes "\<forall>k. zeroOr (ownersAnnotations st k) \<noteq> [] \<longrightarrow> k \<in> set ownerKeys"
  shows "\<forall>k. zeroOr (ownersAnnotations (fold ownerStep ios st) k) \<noteq> [] \<longrightarrow> k \<in> set ownerKeys"
  using assms
proof (induction ios arbitrary: st)
  case Nil
  then show ?case by simp
next
  case (Cons io ios)
  from Cons.IH [OF ownersAnnotations_ownerStep [OF Cons.prems]] show ?case by simp
qed

lemma zeroOr_ownersAnnotationsInit: "zeroOr (ownersAnnotationsInit k) = []"
  by (simp add: ownersAnnotationsInit_def zeroOr_def)

lemma ownersAnnotations_keys:
  assumes "zeroOr (ownersAnnotations (collectOwners owners owner0) k) \<noteq> []"
  shows "k \<in> set ownerKeys"
proof -
  let ?st = "\<lparr>primary = owner0, ownersAnnotations = ownersAnnotationsInit,
        proxyAnnotations = proxyAnnotationsInit\<rparr>"
  have "\<forall>k. zeroOr (ownersAnnotations ?st k) \<noteq> [] \<longrightarrow> k \<in> set ownerKeys"
    by (simp add: zeroOr_ownersAnnotationsInit)
  from ownersAnnotations_fold_ownerStep [OF this, of "enumerate 0 owners"] assms
  show ?thesis unfolding collectOwners_def by blast
qed

text \<open>
  The two loops that write the collected names range over Go maps. Whatever keys the
  loops visit and in whatever order, as long as they visit the keys that hold a name,
  the annotations are the ones of the model.
\<close>

lemma convertV1Beta1OwnerToV1Alpha1_any_order:
  assumes "\<forall>k. zeroOr (ownersAnnotations (collectOwners (b_Owners (b_Spec src)) (fst t)) k) \<noteq> [] \<longrightarrow>
             k \<in> set keys1"
    and "\<forall>k. zeroOr (proxyAnnotations (collectOwners (b_Owners (b_Spec src)) (fst t)) k) \<noteq> [] \<longrightarrow>
             k \<in> set keys2"
  shows "snd (convertV1Beta1OwnerToV1Alpha1 src t) =
     emitAnnotations (proxyAnnotations (collectOwners (b_Owners (b_Spec src)) (fst t))) keys2
       (emitAnnotations (ownersAnnotations (collectOwners (b_Owners (b_Spec src)) (fst t))) keys1 (snd t))"
proof -
  let ?st = "collectOwners (b_Owners (b_Spec src)) (fst t)"
  have 1: "emitAnnotations (ownersAnnotations ?st) ownerKeys (snd t) =
      emitAnnotations (ownersAnnotations ?st) keys1 (snd t)"
    by (rule emitAnnotations_order) (use assms(1) ownersAnnotations_keys in blast)
  have 2: "emitAnnotations (proxyAnnotations ?st) proxyKeys a =
      emitAnnotations (proxyAnnotations ?st) keys2 a" for a
    by (rule emitAnnotations_order) (use assms(2) proxyAnnotations_keys in blast)
  show ?thesis by (simp add: convertV1Beta1OwnerToV1Alpha1_def Let_def 1 2)
qed

subsection \<open>The value of a permission key\<close>

lemma set_holders:
  "set (holders kind op owners) =
     b_Name ` {ow \<in> set owners. op \<in> set (operationsFor kind (b_ProxyOperations ow))}"
  by (auto simp: holders_def count_list_0_iff)

lemma in_permissions: "((k, op) \<in> permissions settings) = (op \<in> set (operationsFor k settings))"
  by (auto simp: permissions_def operationsFor_def)

lemma hubTenant_returns: "\<exists>t'. ConvertFrom (hubTenant owners) t = Inr t'"
  by (rule ConvertFrom_returns) (simp add: hubTenant_def zeroHub_def)

text \<open>
  Claim C5, as stated, at the hub tenant \<open>threeListers\<close>: the owners \<open>alice\<close>, \<open>zed\<close>
  and \<open>bob\<close>, in this order, may each list nodes. The owners from index 1 on are \<open>zed\<close>
  and \<open>bob\<close>, whose names in lexical order join to \<open>bob,zed\<close>; the downgrade writes
  \<open>alice,zed,bob\<close>: the first owner is included and the order is that of the owners.
\<close>

theorem downgrade_permission_keys_counterexample:
  "map b_Name (tl (b_Owners (b_Spec threeListers))) = [''zed'', ''bob''] \<and>
   \<not> isl (ConvertFrom threeListers zeroTenant) \<and>
   GetAnnotations (projr (ConvertFrom threeListers zeroTenant)) enableNodeListingAnnotation =
     Some ''alice,zed,bob''"
  by code_simp

text \<open>
  Claim C5, amended. For each of the twelve permission keys, the key that the switches
  of the downgrade select for a service kind and an operation: when the downgrade
  returns, the key is written exactly when some owner, the first one included, has the
  operation under the service kind; its value is the comma-join of the names of these
  owners in the order of the owners list, a name once for every occurrence of the
  operation in the owner's settings of that kind. A key that no owner holds is not
  written and stays as the metadata copied from the hub tenant has it.
\<close>

theorem downgrade_permission_keys:
  assumes "ConvertFrom src t = Inr t'" and "proxyAnnotationOf kind op = Some a"
  shows "GetAnnotations t' a =
           (if holders kind op (b_Owners (b_Spec src)) = []
            then lookup (Annotations (b_ObjectMeta src)) a
            else Some (Join (holders kind op (b_Owners (b_Spec src))) '','')) \<and>
         set (holders kind op (b_Owners (b_Spec src))) =
           b_Name ` {ow \<in> set (b_Owners (b_Spec src)). (kind, op) \<in> permissions (b_ProxyOperations ow)}"
  using ConvertFrom_proxy_key [OF assms] by (simp add: set_holders in_permissions)

text \<open>C5 amended, at \<open>threeListers\<close>: the listing key is written, the update key is not.\<close>

theorem downgrade_permission_keys_witness:
  "\<not> isl (ConvertFrom threeListers zeroTenant) \<and>
   GetAnnotations (projr (ConvertFrom threeListers zeroTenant)) enableNodeListingAnnotation =
     Some (Join [''alice'', ''zed'', ''bob''] '','') \<and>
   GetAnnotations (projr (ConvertFrom threeListers zeroTenant)) enableNodeUpdateAnnotation = None"
proof -
  obtain t' where t': "ConvertFrom threeListers zeroTenant = Inr t'"
    using hubTenant_returns [of _ zeroTenant] unfolding threeListers_def by blast
  have 1: "proxyAnnotationOf NodesProxy ListOperation = Some enableNodeListingAnnotation"
    by code_simp
  have 2: "proxyAnnotationOf NodesProxy UpdateOperation = Some enableNodeUpdateAnnotation"
    by code_simp
  have 3: "holders NodesProxy ListOperation (b_Owners (b_Spec threeListers)) = [''alice'', ''zed'', ''bob'']"
    by code_simp
  have 4: "holders NodesProxy UpdateOperation (b_Owners (b_Spec threeListers)) = []"
    by code_simp
  have 5: "lookup (Annotations (b_ObjectMeta threeListers)) enableNodeUpdateAnnotation = None"
    by code_simp
  from downgrade_permission_keys [OF t' 1] downgrade_permission_keys [OF t' 2] 3 4 5 t'
  show ?thesis by simp
qed

subsection \<open>Downgrade followed by upgrade\<close>

text \<open>Splitting what was joined gives the names back when no name has a comma.\<close>

lemma Split_no_comma: "CHR '','' \<notin> set x \<Longrightarrow> Split x = [x]"
  by (induction x) auto

lemma Split_append_comma:
  "CHR '','' \<notin> set x \<Longrightarrow> Split (x @ CHR '','' # rest) = x # Split rest"
  by (induction x) auto

lemma Split_Join:
  assumes "xs \<noteq> []" "\<forall>x \<in> set xs. CHR '','' \<notin> set x"
  shows "Split (Join xs '','') = xs"
  using assms
proof (induction xs "'',''" rule: Join.induct)
  case 1
  then show ?case by simp
next
  case (2 x)
  then show ?case by (simp add: Split_no_comma)
next
  case (3 x y ys)
  then show ?case by (simp add: Split_append_comma)
qed

lemma count_holders:
  assumes "distinct (map b_Name owners)" "ow \<in> set owners"
  shows "count_list (holders kind op owners) (b_Name ow) =
     count_list (operationsFor kind (b_ProxyOperations ow)) op"
  using assms
proof (induction owners)
  case Nil
  then show ?case by simp
next
  case (Cons x owners)
  have h: "holders kind op (x # owners) =
      replicate (count_list (operationsFor kind (b_ProxyOperations x)) op) (b_Name x) @
      holders kind op owners"
    by (simp add: holders_def)
  show ?case
  proof (cases "ow = x")
    case True
    with Cons.prems have "b_Name x \<notin> set (holders kind op owners)"
      by (auto simp: set_holders)
    then have "count_list (holders kind op owners) (b_Name x) = 0"
      by (simp add: count_list_0_iff)
    with True show ?thesis by (simp add: h count_list_replicate)
  next
    case False
    with Cons.prems have "ow \<in> set owners" "b_Name x \<noteq> b_Name ow" by auto
    with Cons show ?thesis by (simp add: h count_list_replicate)
  qed
qed

lemma decodedBy_roundtrip:
  assumes "ConvertFrom src t = Inr t'"
    and "serviceKindToAnnotationMap sk = Some as" and "a \<in> set as"
    and "\<forall>ow \<in> set (b_Owners (b_Spec src)). CHR '','' \<notin> set (b_Name ow)"
    and "\<forall>a \<in> set proxyKeys. lookup (Annotations (b_ObjectMeta src)) a = None"
  shows "decodedBy (GetAnnotations t') n a =
     replicate (count_list (holders sk (operationOf a) (b_Owners (b_Spec src))) n) (operationOf a)"
proof -
  let ?h = "holders sk (operationOf a) (b_Owners (b_Spec src))"
  have p: "proxyAnnotationOf sk (operationOf a) = Some a"
    by (rule table_proxyAnnotationOf [OF assms(2,3)])
  from proxyAnnotationOf_table [OF p] have k: "a \<in> set proxyKeys" by blast
  have g: "GetAnnotations t' a = (if ?h = [] then None else Some (Join ?h '',''))"
    using ConvertFrom_proxy_key [OF assms(1) p] assms(5) k by simp
  show ?thesis
  proof (cases "?h = []")
    case True
    with g show ?thesis by (simp add: decodedBy_def)
  next
    case False
    have "\<forall>x \<in> set ?h. CHR '','' \<notin> set x"
      using assms(4) by (auto simp: set_holders)
    from Split_Join [OF False this] g False show ?thesis
      by (simp add: decodedBy_def)
  qed
qed

lemma set_decodedOperations_roundtrip:
  assumes "ConvertFrom src t = Inr t'"
    and "sk \<in> set proxyServiceKinds"
    and "\<forall>ow \<in> set (b_Owners (b_Spec src)). CHR '','' \<notin> set (b_Name ow)"
    and "\<forall>a \<in> set proxyKeys. lookup (Annotations (b_ObjectMeta src)) a = None"
    and "distinct (map b_Name (b_Owners (b_Spec src)))"
    and "ow \<in> set (b_Owners (b_Spec src))"
  shows "set (decodedOperations (GetAnnotations t') (b_Name ow) sk) =
     {op \<in> set (operationsFor sk (b_ProxyOperations ow)).
        op \<in> {ListOperation, UpdateOperation, DeleteOperation}}"
proof -
  from assms(2) obtain as where as: "serviceKindToAnnotationMap sk = Some as"
    by (auto simp: proxyServiceKinds_def key_facts)
  from table_cases [OF as] have m: "map operationOf as = [ListOperation, UpdateOperation, DeleteOperation]"
    by simp
  have d: "decodedBy (GetAnnotations t') (b_Name ow) a =
      replicate (count_list (operationsFor sk (b_ProxyOperations ow)) (operationOf a)) (operationOf a)"
    if "a \<in> set as" for a
    by (simp add: decodedBy_roundtrip [OF assms(1) as that assms(3,4)] count_holders [OF assms(5,6)])
  have "set (decodedOperations (GetAnnotations t') (b_Name ow) sk) =
      (\<Union>a \<in> set as. set (decodedBy (GetAnnotations t') (b_Name ow) a))"
    using as by (simp add: decodedOperations_def zeroOr_def)
  also have "\<dots> = (\<Union>a \<in> set as. {op. op = operationOf a \<and> op \<in> set (operationsFor sk (b_ProxyOperations ow))})"
    by (auto simp: d count_list_0_iff)
  also have "\<dots> = {op \<in> set (operationsFor sk (b_ProxyOperations ow)). op \<in> set (map operationOf as)}"
    by auto
  finally show ?thesis by (simp add: m)
qed

lemma in_permissions_settingsOf:
  assumes "distinct order"
  shows "((k, op) \<in> permissions (settingsOf order ann n)) =
      (k \<in> set order \<and> op \<in> set (decodedOperations ann n k))"
  by (simp add: in_permissions operationsFor_settingsOf_aux concat_map_select [OF assms])

text \<open>
  Claim C1, as stated, at the hub tenant \<open>sharedName\<close>: the first owner, a user named
  \<open>a\<close>, may list nodes; the only other owner is a group that is also named \<open>a\<close> and has
  no permissions. The names from index 1 on are pairwise distinct. After downgrade and
  upgrade the group \<open>a\<close> may list nodes.
\<close>

theorem permission_round_trip_counterexample:
  "map b_Name (tl (b_Owners (b_Spec sharedName))) = [''a''] \<and>
   b_ProxyOperations (b_Owners (b_Spec sharedName) ! 1) = [] \<and>
   \<not> isl (ConvertFrom sharedName zeroTenant) \<and>
   b_Owners (b_Spec (fst (ConvertTo sourceOrder (projr (ConvertFrom sharedName zeroTenant)) zeroHub))) ! 1 =
     \<lparr>b_Kind = ''Group'', b_Name = ''a'',
      b_ProxyOperations = [\<lparr>p_Kind = ''Nodes'', p_Operations = [''List'']\<rparr>]\<rparr>"
  by code_simp

text \<open>
  Claim C1, amended. Take a hub tenant whose owners, the first one included, have
  pairwise distinct names without commas, and whose metadata holds none of the twelve
  permission keys; downgrade it, and decode the annotations of the legacy tenant as the
  upgrade does. Then what is decoded for the name of each owner is, as a set of pairs of
  a service kind and an operation, exactly the set the owner started with among the four
  service kinds and the three operations; and every owner of the upgraded tenant with
  that name has exactly this set. This holds for every order Go may take over its maps.
\<close>

theorem permission_round_trip:
  assumes "valid_schedule sched"
    and "ConvertFrom src t = Inr t'"
    and "distinct (map b_Name (b_Owners (b_Spec src)))"
    and "\<forall>ow \<in> set (b_Owners (b_Spec src)). CHR '','' \<notin> set (b_Name ow)"
    and "\<forall>a \<in> set proxyKeys. lookup (Annotations (b_ObjectMeta src)) a = None"
    and "ow \<in> set (b_Owners (b_Spec src))"
  shows "(\<forall>i. permissions (getProxySettingsForOwner (rangeOwnerOperations sched i)
                (decodeOperations (rangeServiceKinds sched) (GetAnnotations t')) (b_Name ow)) =
           {(k, op) \<in> permissions (b_ProxyOperations ow).
              k \<in> set proxyServiceKinds \<and> op \<in> {ListOperation, UpdateOperation, DeleteOperation}}) \<and>
         (\<forall>ow' \<in> set (b_Owners (b_Spec (fst (ConvertTo sched t' dst)))).
            b_Name ow' = b_Name ow \<longrightarrow>
            permissions (b_ProxyOperations ow') =
              {(k, op) \<in> permissions (b_ProxyOperations ow).
                 k \<in> set proxyServiceKinds \<and> op \<in> {ListOperation, UpdateOperation, DeleteOperation}})"
proof -
  let ?R = "{(k, op) \<in> permissions (b_ProxyOperations ow).
              k \<in> set proxyServiceKinds \<and> op \<in> {ListOperation, UpdateOperation, DeleteOperation}}"
  have v: "distinct (rangeServiceKinds sched)" "set (rangeServiceKinds sched) = set proxyServiceKinds"
    "\<And>n. distinct (rangeOwnerOperations sched n)"
    "\<And>n. set (rangeOwnerOperations sched n) = set proxyServiceKinds"
    using assms(1) by (simp_all add: valid_schedule_def)
  have s: "permissions (settingsOf (rangeOwnerOperations sched i) (GetAnnotations t') (b_Name ow)) = ?R"
    for i
  proof -
    have "(k \<in> set proxyServiceKinds \<and> op \<in> set (decodedOperations (GetAnnotations t') (b_Name ow) k)) =
        ((k, op) \<in> ?R)" for k op
    proof (cases "k \<in> set proxyServiceKinds")
      case True
      from set_decodedOperations_roundtrip [OF assms(2) True assms(4,5,3,6)] True
      show ?thesis by (simp add: in_permissions)
    next
      case False
      then show ?thesis by simp
    qed
    note h = this
    show ?thesis
    proof (rule set_eqI)
      fix x :: "ProxyServiceKind \<times> ProxyOperation"
      obtain k op where x: "x = (k, op)" by (cases x)
      show "(x \<in> permissions (settingsOf (rangeOwnerOperations sched i) (GetAnnotations t') (b_Name ow))) =
          (x \<in> ?R)"
        unfolding x in_permissions_settingsOf [OF v(3)] v(4) by (rule h)
    qed
  qed
  have a: "\<forall>i. permissions (getProxySettingsForOwner (rangeOwnerOperations sched i)
                (decodeOperations (rangeServiceKinds sched) (GetAnnotations t')) (b_Name ow)) = ?R"
    by (simp add: getProxySettingsForOwner_decoded [OF v(1,2)] s)
  have b: "permissions (b_ProxyOperations ow') = ?R"
    if "ow' \<in> set (b_Owners (b_Spec (fst (ConvertTo sched t' dst))))" "b_Name ow' = b_Name ow" for ow'
  proof -
    from that(1) have "ow' \<in> set (convertV1Alpha1OwnerToV1Beta1 sched t')"
      by (simp add: ConvertTo_owners)
    from in_convertD [OF assms(1) this] obtain i where
      "b_ProxyOperations ow' =
         settingsOf (rangeOwnerOperations sched i) (GetAnnotations t') (b_Name ow')"
      by blast
    with that(2) s [of i] show ?thesis by simp
  qed
  show ?thesis
  proof (intro conjI ballI impI)
    show "\<forall>i. permissions (getProxySettingsForOwner (rangeOwnerOperations sched i)
                (decodeOperations (rangeServiceKinds sched) (GetAnnotations t')) (b_Name ow)) = ?R"
      by (rule a)
  next
    fix ow'
    assume "ow' \<in> set (b_Owners (b_Spec (fst (ConvertTo sched t' dst))))" "b_Name ow' = b_Name ow"
    then show "permissions (b_ProxyOperations ow') = ?R" by (rule b)
  qed
qed

text \<open>
  C1 amended, at the hub tenant \<open>aliceAndTeam\<close>: the user \<open>alice\<close> may list and update
  nodes, the group \<open>teamA\<close> may list nodes; the owner at index 1 after the round trip is
  \<open>teamA\<close>, with the permissions it started with.
\<close>

theorem permission_round_trip_witness:
  "\<not> isl (ConvertFrom aliceAndTeam zeroTenant) \<and>
   b_Name (b_Owners (b_Spec (fst (ConvertTo otherOrder (projr (ConvertFrom aliceAndTeam zeroTenant)) zeroHub))) ! 1) =
     ''teamA'' \<and>
   permissions (b_ProxyOperations
      (b_Owners (b_Spec (fst (ConvertTo otherOrder (projr (ConvertFrom aliceAndTeam zeroTenant)) zeroHub))) ! 1)) =
     {(k, op) \<in> permissions (b_ProxyOperations (b_Owners (b_Spec aliceAndTeam) ! 1)).
        k \<in> set proxyServiceKinds \<and> op \<in> {ListOperation, UpdateOperation, DeleteOperation}}"
proof -
  obtain t' where t': "ConvertFrom aliceAndTeam zeroTenant = Inr t'"
    using hubTenant_returns [of _ zeroTenant] unfolding aliceAndTeam_def by blast
  let ?os = "b_Owners (b_Spec (fst (ConvertTo otherOrder (projr (ConvertFrom aliceAndTeam zeroTenant)) zeroHub)))"
  let ?ow = "b_Owners (b_Spec aliceAndTeam) ! 1"
  have 1: "distinct (map b_Name (b_Owners (b_Spec aliceAndTeam)))" by code_simp
  have 2: "\<forall>ow \<in> set (b_Owners (b_Spec aliceAndTeam)). CHR '','' \<notin> set (b_Name ow)"
    by (simp add: aliceAndTeam_def hubTenant_def)
  have 3: "\<forall>a \<in> set proxyKeys. lookup (Annotations (b_ObjectMeta aliceAndTeam)) a = None"
    by (simp add: aliceAndTeam_def hubTenant_def zeroHub_def lookup_def)
  have 4: "?ow \<in> set (b_Owners (b_Spec aliceAndTeam))" by code_simp
  have 5: "?os ! 1 \<in> set ?os" by code_simp
  have 6: "b_Name (?os ! 1) = b_Name ?ow" by code_simp
  have 7: "b_Name (?os ! 1) = ''teamA''" by code_simp
  from permission_round_trip [OF valid_schedule_otherOrder t' 1 2 3 4, of zeroHub] 5 6 t'
  have "permissions (b_ProxyOperations (?os ! 1)) =
     {(k, op) \<in> permissions (b_ProxyOperations ?ow).
        k \<in> set proxyServiceKinds \<and> op \<in> {ListOperation, UpdateOperation, DeleteOperation}}"
    by simp
  with 7 t' show ?thesis by simp
qed

end
